theory Spec2Isabelle
  imports Main "HOL-Library.AList"
begin

section \<open>JavaScript values and flat records\<close>

text \<open>
  The records kept by \<open>js/store.js\<close> are flat JSON objects. A value is one of the
  JavaScript primitives. Numbers are modelled as integers: every number the program
  produces itself is a millisecond timestamp (\<open>new Date().getTime()\<close>) or the result of
  \<open>parseInt\<close>; \<open>NaN\<close> is not a value of the model, it is the \<open>None\<close> of the
  conversions below.
\<close>

datatype jsval = JUndefined | JNull | JBool bool | JNum int | JStr string

text \<open>
  An object is the list of its properties in insertion order. Reading a property that is
  absent gives \<open>undefined\<close>; writing keeps the position of an existing property and
  appends a new one.
\<close>

type_synonym obj = "(string \<times> jsval) list"

definition get :: "obj \<Rightarrow> string \<Rightarrow> jsval" where
  "get ob k = (case map_of ob k of None \<Rightarrow> JUndefined | Some v \<Rightarrow> v)"

definition put :: "string \<Rightarrow> jsval \<Rightarrow> obj \<Rightarrow> obj" where
  "put k v ob = AList.update k v ob"

text \<open>\<open>k in ob\<close>\<close>

definition has :: "string \<Rightarrow> obj \<Rightarrow> bool" where
  "has k ob = (k \<in> set (map fst ob))"

text \<open>
  \<open>JSON.parse(JSON.stringify(ob))\<close>: a property whose value is \<open>undefined\<close> is not
  written, so it is gone after the round trip.
\<close>

definition json :: "obj \<Rightarrow> obj" where
  "json ob = filter (\<lambda>(k, v). get ob k \<noteq> JUndefined) ob"

text \<open>Truthiness, as tested by \<open>if (x)\<close>, \<open>x ? a : b\<close> and \<open>!x\<close>.\<close>

fun truthy :: "jsval \<Rightarrow> bool" where
  "truthy JUndefined = False"
| "truthy JNull = False"
| "truthy (JBool b) = b"
| "truthy (JNum n) = (n \<noteq> 0)"
| "truthy (JStr s) = (s \<noteq> [])"

subsection \<open>Strings and numbers\<close>

text \<open>White space and line terminators, as stripped by \<open>String.prototype.trim\<close>.\<close>

definition is_ws :: "char \<Rightarrow> bool" where
  "is_ws c = (c \<in> set [CHR 0x09, CHR 0x0A, CHR 0x0B, CHR 0x0C, CHR 0x0D, CHR 0x20, CHR 0xA0])"

definition trim :: "string \<Rightarrow> string" where
  "trim s = rev (dropWhile is_ws (rev (dropWhile is_ws s)))"

definition is_digit :: "char \<Rightarrow> bool" where
  "is_digit c = (48 \<le> (of_char c :: nat) \<and> (of_char c :: nat) \<le> 57)"

definition digit_val :: "char \<Rightarrow> nat" where
  "digit_val c = of_char c - 48"

definition digit_char :: "nat \<Rightarrow> char" where
  "digit_char d = char_of (48 + d)"

definition digits_val :: "string \<Rightarrow> nat" where
  "digits_val ds = foldl (\<lambda>a c. 10 * a + digit_val c) 0 ds"

text \<open>The decimal digits of a natural number, most significant first.\<close>

fun digits :: "nat \<Rightarrow> string" where
  "digits n = (if n < 10 then [digit_char n] else digits (n div 10) @ [digit_char (n mod 10)])"

declare digits.simps [simp del]

text \<open>\<open>String(n)\<close> for an integer \<open>n\<close>.\<close>

definition show_int :: "int \<Rightarrow> string" where
  "show_int n = (if n < 0 then CHR ''-'' # digits (nat (- n)) else digits (nat n))"

text \<open>An optional sign followed by the digits \<open>ds\<close>.\<close>

definition signed :: "(string \<Rightarrow> nat option) \<Rightarrow> string \<Rightarrow> int option" where
  "signed unsigned t =
     (case t of
        [] \<Rightarrow> None
      | c # r \<Rightarrow>
          if c = CHR ''-'' then map_option (\<lambda>n. - int n) (unsigned r)
          else if c = CHR ''+'' then map_option int (unsigned r)
          else map_option int (unsigned t))"

text \<open>
  \<open>Number(s)\<close> for a string, as used by \<open>==\<close> between a number and a string: the
  trimmed string is empty (zero) or a signed decimal integer; everything else is
  \<open>NaN\<close> here. (Fractions, exponents, hexadecimal literals and \<open>Infinity\<close> lie outside
  the integer model. The ids the store assigns are numbers, and the strings compared
  with them below are decimal.)
\<close>

definition to_number :: "string \<Rightarrow> int option" where
  "to_number s =
     (let t = trim s in
      if t = [] then Some 0
      else signed (\<lambda>ds. if ds \<noteq> [] \<and> list_all is_digit ds then Some (digits_val ds) else None) t)"

text \<open>
  \<open>parseInt(s, 10)\<close> for a string: leading white space is skipped, then an optional sign
  and the longest run of digits are read; no digit gives \<open>NaN\<close>.
\<close>

definition parse_int :: "string \<Rightarrow> int option" where
  "parse_int s =
     signed (\<lambda>r. let ds = takeWhile is_digit r in if ds = [] then None else Some (digits_val ds))
       (dropWhile is_ws s)"

text \<open>Strict equality \<open>===\<close> on primitives without \<open>NaN\<close> is equality of the values.\<close>

text \<open>
  Loose equality \<open>==\<close>: equal types compare strictly, \<open>null\<close> and \<open>undefined\<close> are
  equal to each other, a number and a string compare after \<open>Number(s)\<close>, and a
  boolean is converted to a number first.
\<close>

fun bool_to_number :: "jsval \<Rightarrow> jsval" where
  "bool_to_number (JBool b) = JNum (if b then 1 else 0)"
| "bool_to_number v = v"

fun loose_eq_nonbool :: "jsval \<Rightarrow> jsval \<Rightarrow> bool" where
  "loose_eq_nonbool JUndefined JNull = True"
| "loose_eq_nonbool JNull JUndefined = True"
| "loose_eq_nonbool (JNum a) (JStr s) = (to_number s = Some a)"
| "loose_eq_nonbool (JStr s) (JNum a) = (to_number s = Some a)"
| "loose_eq_nonbool a b = (a = b)"

fun loose_eq :: "jsval \<Rightarrow> jsval \<Rightarrow> bool" where
  "loose_eq (JBool a) (JBool b) = (a = b)"
| "loose_eq a b = loose_eq_nonbool (bool_to_number a) (bool_to_number b)"

section \<open>The store (\<open>js/store.js\<close>)\<close>

text \<open>
  A store is the list of records kept under its name in \<open>localStorage\<close>. Every
  operation parses the list, works on it, and (when it writes) stringifies it back.
  Each function returns what the callback receives and, for a writing operation, the list
  that is stored afterwards.
\<close>

definition Store_find :: "obj \<Rightarrow> obj list \<Rightarrow> obj list" where
  "Store_find query items =
     filter (\<lambda>item. list_all (\<lambda>q. get query q = get item q) (map fst query)) items"

definition Store_findById :: "jsval \<Rightarrow> obj list \<Rightarrow> obj option" where
  "Store_findById idv items = List.find (\<lambda>item. loose_eq (get item ''id'') idv) items"

definition Store_findAll :: "obj list \<Rightarrow> obj list" where
  "Store_findAll items = items"

text \<open>\<open>for (var key in updateData) item[key] = updateData[key]\<close>\<close>

definition assign :: "obj \<Rightarrow> obj \<Rightarrow> obj" where
  "assign updateData item = foldl (\<lambda>it key. put key (get updateData key) it) item (map fst updateData)"

text \<open>The loop of \<open>save\<close>: the first record whose id is strictly equal is updated.\<close>

fun save_loop :: "jsval \<Rightarrow> obj \<Rightarrow> obj list \<Rightarrow> obj list" where
  "save_loop idv updateData [] = []"
| "save_loop idv updateData (item # items) =
     (if get item ''id'' = idv then assign updateData item # items
      else item # save_loop idv updateData items)"

text \<open>
  \<open>save(updateData, callback, id)\<close>; \<open>now\<close> is the value of \<open>new Date().getTime()\<close>
  read when no id is given; an omitted id is \<open>JUndefined\<close>.
\<close>

definition Store_save :: "int \<Rightarrow> obj \<Rightarrow> jsval \<Rightarrow> obj list \<Rightarrow> obj list \<times> obj list" where
  "Store_save now updateData idv items =
     (if truthy idv then
        let items' = save_loop idv updateData items in (items', map json items')
      else
        let updateData' = put ''id'' (JNum now) updateData
        in ([updateData'], map json (items @ [updateData'])))"

text \<open>The loop of \<open>remove\<close>: the first record whose id is loosely equal is spliced out.\<close>

fun remove_loop :: "jsval \<Rightarrow> obj list \<Rightarrow> obj list" where
  "remove_loop idv [] = []"
| "remove_loop idv (item # items) =
     (if loose_eq (get item ''id'') idv then items else item # remove_loop idv items)"

definition Store_remove :: "jsval \<Rightarrow> obj list \<Rightarrow> obj list \<times> obj list" where
  "Store_remove idv items = (let items' = remove_loop idv items in (items', map json items'))"

definition Store_drop :: "obj list \<times> obj list" where
  "Store_drop = ([], [])"

section \<open>The model (\<open>Model\<close>, the later revision)\<close>

text \<open>
  The model owns two stores. Callbacks of the store run inline, so each operation of the
  model is a function from the state to the value its callback receives (or the
  exception thrown) and the state left behind. An exception does not undo the writes
  made before it.
\<close>

record state =
  taskStorage :: "obj list"
  categoryStorage :: "obj list"

datatype error = TypeError

text \<open>What a callback of \<open>read\<close> receives: a list of records, or one record.\<close>

datatype result = Records "obj list" | Record obj

text \<open>
  \<open>_getCategoryIdByName(categoryName)\<close>; \<open>now\<close> is the clock read by the store if a
  category has to be created. \<open>data[0].id\<close> on an empty list would throw.
\<close>

definition getCategoryIdByName :: "int \<Rightarrow> jsval \<Rightarrow> state \<Rightarrow> (error + jsval) \<times> state" where
  "getCategoryIdByName now categoryName s =
     (case Store_find [(''name'', categoryName)] (categoryStorage s) of
        [] \<Rightarrow>
          (case Store_save now [(''name'', categoryName)] JUndefined (categoryStorage s) of
             ([], items') \<Rightarrow> (Inl TypeError, s\<lparr>categoryStorage := items'\<rparr>)
           | (d # _, items') \<Rightarrow> (Inr (get d ''id''), s\<lparr>categoryStorage := items'\<rparr>))
      | d # _ \<Rightarrow> (Inr (get d ''id''), s))"

text \<open>\<open>x ? x.trim() : ''\<close>: a truthy value that is not a string has no \<open>trim\<close>.\<close>

definition trim_arg :: "jsval \<Rightarrow> error + string" where
  "trim_arg v =
     (if truthy v then (case v of JStr x \<Rightarrow> Inr (trim x) | _ \<Rightarrow> Inl TypeError) else Inr [])"

text \<open>
  \<open>create(title, categoryName, callback)\<close>; \<open>now1\<close> is the clock during category
  resolution, \<open>now2\<close> the clock when the task is saved.
\<close>

definition Model_create ::
  "int \<Rightarrow> int \<Rightarrow> jsval \<Rightarrow> jsval \<Rightarrow> state \<Rightarrow> (error + obj list) \<times> state" where
  "Model_create now1 now2 title categoryName s =
     (case trim_arg title of
        Inl e \<Rightarrow> (Inl e, s)
      | Inr title' \<Rightarrow>
     (case trim_arg categoryName of
        Inl e \<Rightarrow> (Inl e, s)
      | Inr categoryName' \<Rightarrow>
     (case getCategoryIdByName now1 (JStr categoryName') s of
        (Inl e, s1) \<Rightarrow> (Inl e, s1)
      | (Inr categoryId, s1) \<Rightarrow>
          (let newTask = [(''title'', JStr title'), (''categoryId'', categoryId),
                          (''completed'', JBool False)];
               (data, items') = Store_save now2 newTask JUndefined (taskStorage s1)
           in (Inr data, s1\<lparr>taskStorage := items'\<rparr>)))))"

text \<open>
  \<open>_joinCategories(tasks, callback)\<close>: the id-to-name \<open>Map\<close> is filled in store order,
  so a later category with the same id overwrites an earlier one; \<open>get\<close> on a missing
  key is \<open>undefined\<close>.
\<close>

definition categoryMap :: "obj list \<Rightarrow> (jsval \<times> jsval) list" where
  "categoryMap categories =
     foldl (\<lambda>m category. AList.update (get category ''id'') (get category ''name'') m) [] categories"

definition map_get :: "(jsval \<times> jsval) list \<Rightarrow> jsval \<Rightarrow> jsval" where
  "map_get m k = (case map_of m k of None \<Rightarrow> JUndefined | Some v \<Rightarrow> v)"

definition joinCategories :: "obj list \<Rightarrow> state \<Rightarrow> obj list" where
  "joinCategories tasks s =
     (let caregoryMap = categoryMap (Store_findAll (categoryStorage s))
      in map (\<lambda>task. put ''categoryName'' (map_get caregoryMap (get task ''categoryId'')) task) tasks)"

text \<open>
  The three call shapes of \<open>read(query, callback)\<close>, told apart by \<open>typeof query\<close>:
  a function (no query), a number or a string, and anything else (an object; \<open>null\<close>,
  \<open>undefined\<close> and booleans have no enumerable property and behave as \<open>QObject []\<close>).
\<close>

datatype query = QFunction | QNumber int | QString string | QObject obj

text \<open>\<open>parseInt(query, 10)\<close>: a number is converted to its string first.\<close>

fun parseInt :: "query \<Rightarrow> int option" where
  "parseInt (QNumber n) = parse_int (show_int n)"
| "parseInt (QString x) = parse_int x"
| "parseInt _ = None"

text \<open>
  The scalar branch of \<open>read\<close>, after \<open>parseInt\<close>. \<open>NaN\<close> is loosely equal to nothing,
  so \<open>findById\<close> hands \<open>undefined\<close> to its callback, as it does for an id that is not
  stored; \<open>task.categoryId\<close> and \<open>category.name\<close> throw on \<open>undefined\<close>.
\<close>

definition read_scalar :: "int option \<Rightarrow> state \<Rightarrow> error + result" where
  "read_scalar q s =
     (case (case q of None \<Rightarrow> None | Some n \<Rightarrow> Store_findById (JNum n) (taskStorage s)) of
        None \<Rightarrow> Inl TypeError
      | Some task \<Rightarrow>
          (case Store_findById (get task ''categoryId'') (categoryStorage s) of
             None \<Rightarrow> Inl TypeError
           | Some category \<Rightarrow> Inr (Record (put ''categoryName'' (get category ''name'') task))))"

fun Model_read :: "query \<Rightarrow> state \<Rightarrow> error + result" where
  "Model_read QFunction s = Inr (Records (joinCategories (Store_findAll (taskStorage s)) s))"
| "Model_read (QNumber n) s = read_scalar (parseInt (QNumber n)) s"
| "Model_read (QString x) s = read_scalar (parseInt (QString x)) s"
| "Model_read (QObject q) s = Inr (Records (joinCategories (Store_find q (taskStorage s)) s))"

text \<open>
  \<open>update(id, data, callback)\<close>. With a \<open>categoryName\<close> in \<open>data\<close>: the name is taken
  out of \<open>data\<close>, resolved to an id, and the task is looked up; when the id differs from
  the task's, the previous category is removed if at most one task refers to it, and
  \<open>data.categoryId\<close> is set. Then \<open>data\<close> is saved under \<open>id\<close>.
\<close>

definition Model_update :: "int \<Rightarrow> jsval \<Rightarrow> obj \<Rightarrow> state \<Rightarrow> (error + obj list) \<times> state" where
  "Model_update now idv data s =
     (if has ''categoryName'' data then
        (let categoryName = get data ''categoryName'';
             data1 = AList.delete ''categoryName'' data
         in case getCategoryIdByName now categoryName s of
              (Inl e, s1) \<Rightarrow> (Inl e, s1)
            | (Inr newCategoryId, s1) \<Rightarrow>
                (case Store_findById idv (taskStorage s1) of
                   None \<Rightarrow> (Inl TypeError, s1)
                 | Some task \<Rightarrow>
                     (let prevCategoryId = get task ''categoryId'';
                          s2 = (if newCategoryId \<noteq> prevCategoryId
                                  \<and> length (Store_find [(''categoryId'', prevCategoryId)] (taskStorage s1)) \<le> 1
                                then s1\<lparr>categoryStorage := snd (Store_remove prevCategoryId (categoryStorage s1))\<rparr>
                                else s1);
                          data2 = (if newCategoryId \<noteq> prevCategoryId
                                   then put ''categoryId'' newCategoryId data1 else data1);
                          (r, items') = Store_save now data2 idv (taskStorage s2)
                      in (Inr r, s2\<lparr>taskStorage := items'\<rparr>))))
      else
        (let (r, items') = Store_save now data idv (taskStorage s)
         in (Inr r, s\<lparr>taskStorage := items'\<rparr>)))"

text \<open>
  \<open>remove(id, callback)\<close>: the task is looked up, its category is removed if at most one
  task refers to it, then the task is removed.
\<close>

definition Model_remove :: "jsval \<Rightarrow> state \<Rightarrow> (error + obj list) \<times> state" where
  "Model_remove idv s =
     (case Store_findById idv (taskStorage s) of
        None \<Rightarrow> (Inl TypeError, s)
      | Some task \<Rightarrow>
          (let categoryId = get task ''categoryId'';
               s1 = (if length (Store_find [(''categoryId'', categoryId)] (taskStorage s)) \<le> 1
                     then s\<lparr>categoryStorage := snd (Store_remove categoryId (categoryStorage s))\<rparr>
                     else s);
               (r, items') = Store_remove idv (taskStorage s1)
           in (Inr r, s1\<lparr>taskStorage := items'\<rparr>)))"

text \<open>
  \<open>removeAll(callback)\<close> drops both stores and then calls \<open>callback.call(this, [])\<close>,
  which throws when no callback was passed (\<open>has_callback = False\<close>).
\<close>

definition Model_removeAll :: "bool \<Rightarrow> state \<Rightarrow> (error + obj list) \<times> state" where
  "Model_removeAll has_callback s =
     (let s1 = s\<lparr>categoryStorage := snd Store_drop\<rparr>;
          s2 = s1\<lparr>taskStorage := snd Store_drop\<rparr>
      in (if has_callback then Inr [] else Inl TypeError, s2))"

subsection \<open>Sequences of calls\<close>

text \<open>A \<open>create\<close> or \<open>update\<close> call with the clock readings it meets.\<close>

datatype call = Create int int jsval jsval | Update int jsval obj

fun step :: "call \<Rightarrow> state \<Rightarrow> state" where
  "step (Create now1 now2 title categoryName) s = snd (Model_create now1 now2 title categoryName s)"
| "step (Update now idv data) s = snd (Model_update now idv data s)"

definition run :: "call list \<Rightarrow> state \<Rightarrow> state" where
  "run calls s = foldl (\<lambda>s c. step c s) s calls"

definition empty_stores :: state where
  "empty_stores = \<lparr>taskStorage = [], categoryStorage = []\<rparr>"

text \<open>The name of a category after trimming (a name that is not a string is left alone).\<close>

definition trimmed_name :: "obj \<Rightarrow> jsval" where
  "trimmed_name category = (case get category ''name'' of JStr x \<Rightarrow> JStr (trim x) | v \<Rightarrow> v)"

definition unique_trimmed_names :: "state \<Rightarrow> bool" where
  "unique_trimmed_names s = distinct (map trimmed_name (categoryStorage s))"

text \<open>The ids of the records of a store, in store order.\<close>

definition ids :: "obj list \<Rightarrow> jsval list" where
  "ids items = map (\<lambda>item. get item ''id'') items"

text \<open>The ids of a store are numbers, as \<open>save\<close> assigns them.\<close>

definition is_num :: "jsval \<Rightarrow> bool" where
  "is_num v = (case v of JNum _ \<Rightarrow> True | _ \<Rightarrow> False)"

definition numeric_ids :: "obj list \<Rightarrow> bool" where
  "numeric_ids items = list_all is_num (ids items)"

text \<open>
  What the model's own writes keep: category names (as stored) are pairwise different, and
  no task has a \<open>categoryName\<close> field.
\<close>

definition names :: "obj list \<Rightarrow> jsval list" where
  "names categories = map (\<lambda>c. get c ''name'') categories"

definition stored_as_written :: "state \<Rightarrow> bool" where
  "stored_as_written s =
     (distinct (names (categoryStorage s)) \<and> list_all (\<lambda>t. \<not> has ''categoryName'' t) (taskStorage s))"

subsection \<open>The earlier revision of the model\<close>

text \<open>
  The source also holds an earlier revision of \<open>Model\<close>, which the one above
  replaces. It differs in three operations: \<open>update\<close> saves \<open>data\<close> as it is,
  \<open>read\<close> with an object does not join, and \<open>removeAll\<close> drops the task store only.
\<close>

definition Model_update_early :: "int \<Rightarrow> jsval \<Rightarrow> obj \<Rightarrow> state \<Rightarrow> (error + obj list) \<times> state" where
  "Model_update_early now idv data s =
     (let (r, items') = Store_save now data idv (taskStorage s)
      in (Inr r, s\<lparr>taskStorage := items'\<rparr>))"

definition Model_read_object_early :: "obj \<Rightarrow> state \<Rightarrow> error + result" where
  "Model_read_object_early q s = Inr (Records (Store_find q (taskStorage s)))"

definition Model_removeAll_early :: "state \<Rightarrow> (error + obj list) \<times> state" where
  "Model_removeAll_early s = (Inr (fst Store_drop), s\<lparr>taskStorage := snd Store_drop\<rparr>)"

section \<open>Numbers and their decimal strings\<close>

lemma digit_char_digit: "d < 10 \<Longrightarrow> is_digit (digit_char d)"
  by (simp add: is_digit_def digit_char_def)

lemma digit_char_val: "d < 10 \<Longrightarrow> digit_val (digit_char d) = d"
  by (simp add: digit_val_def digit_char_def)

lemma is_digit_not_ws: "is_digit c \<Longrightarrow> \<not> is_ws c"
  by (auto simp: is_digit_def is_ws_def)

lemma is_digit_not_sign: "is_digit c \<Longrightarrow> c \<noteq> CHR ''-'' \<and> c \<noteq> CHR ''+''"
  by (auto simp: is_digit_def)

lemma digits_nonempty: "digits n \<noteq> []"
  by (subst digits.simps) simp

lemma digits_all_digit: "list_all is_digit (digits n)"
  by (induction n rule: digits.induct) (subst digits.simps, simp add: digit_char_digit)

lemma digits_val_snoc: "digits_val (ds @ [c]) = 10 * digits_val ds + digit_val c"
  by (simp add: digits_val_def)

lemma digits_val_digits: "digits_val (digits n) = n"
proof (induction n rule: digits.induct)
  case (1 n)
  show ?case
  proof (cases "n < 10")
    case True
    then show ?thesis by (subst digits.simps) (simp add: digits_val_def digit_char_val)
  next
    case False
    with 1 show ?thesis by (subst digits.simps) (simp add: digits_val_snoc digit_char_val)
  qed
qed

lemma trim_id:
  assumes "s \<noteq> []" "\<not> is_ws (hd s)" "\<not> is_ws (last s)"
  shows "trim s = s"
proof -
  have 1: "dropWhile is_ws s = s" using assms by (simp add: dropWhile_eq_self_iff)
  have 2: "dropWhile is_ws (rev s) = rev s" using assms by (simp add: dropWhile_eq_self_iff hd_rev)
  show ?thesis by (simp add: trim_def 1 2)
qed

lemma digits_hd: "is_digit (hd (digits n))"
  using digits_all_digit [of n] digits_nonempty [of n] by (cases "digits n") simp_all

lemma digits_last: "is_digit (last (digits n))"
  using digits_all_digit [of n] digits_nonempty [of n]
  by (simp add: list_all_iff)

lemma minus_not_ws: "\<not> is_ws CHR ''-''"
  by (simp add: is_ws_def)

lemma show_int_nonempty: "show_int n \<noteq> []"
  by (simp add: show_int_def digits_nonempty)

lemma show_int_hd: "\<not> is_ws (hd (show_int n))"
  by (simp add: show_int_def minus_not_ws is_digit_not_ws [OF digits_hd])

lemma show_int_last: "\<not> is_ws (last (show_int n))"
  by (simp add: show_int_def digits_nonempty is_digit_not_ws [OF digits_last])

lemma trim_show_int: "trim (show_int n) = show_int n"
  by (rule trim_id [OF show_int_nonempty show_int_hd show_int_last])

lemma signed_minus: "signed u (CHR ''-'' # r) = map_option (\<lambda>n. - int n) (u r)"
  by (simp add: signed_def)

lemma signed_digits: "signed u (digits m) = map_option int (u (digits m))"
proof (cases "digits m")
  case Nil
  then show ?thesis using digits_nonempty [of m] by simp
next
  case (Cons c r)
  then have "is_digit c" using digits_hd [of m] by simp
  then have "c \<noteq> CHR ''-''" "c \<noteq> CHR ''+''" using is_digit_not_sign by blast+
  then show ?thesis by (simp add: signed_def Cons)
qed

lemma signed_show_int:
  assumes "u (digits (nat n)) = Some (nat n)" "u (digits (nat (- n))) = Some (nat (- n))"
  shows "signed u (show_int n) = Some n"
  using assms by (simp add: show_int_def signed_minus signed_digits)

text \<open>\<open>Number(String(n))\<close> is \<open>n\<close>.\<close>

lemma to_number_show_int: "to_number (show_int n) = Some n"
proof -
  have "trim (show_int n) \<noteq> []" by (simp add: trim_show_int show_int_nonempty)
  then show ?thesis
    by (simp add: to_number_def trim_show_int signed_show_int digits_nonempty
        digits_all_digit digits_val_digits)
qed

lemma takeWhile_all: "list_all P xs \<Longrightarrow> takeWhile P xs = xs"
  by (simp add: list_all_iff)

text \<open>\<open>parseInt(String(n), 10)\<close> is \<open>n\<close>.\<close>

lemma parse_int_show_int: "parse_int (show_int n) = Some n"
proof -
  have dw: "dropWhile is_ws (show_int n) = show_int n"
    by (simp add: dropWhile_eq_self_iff show_int_hd)
  show ?thesis
    by (simp add: parse_int_def dw signed_show_int takeWhile_all digits_nonempty
        digits_all_digit digits_val_digits)
qed

lemma parseInt_number: "parseInt (QNumber n) = Some n"
  by (simp add: parse_int_show_int)

section \<open>Looking up an id that is not stored\<close>

lemma read_scalar_missing:
  "Store_findById (JNum n) (taskStorage s) = None \<Longrightarrow> Model_read (QNumber n) s = Inl TypeError"
  by (simp add: parseInt_number read_scalar_def del: parseInt.simps)

lemma remove_missing:
  "Store_findById idv (taskStorage s) = None \<Longrightarrow> Model_remove idv s = (Inl TypeError, s)"
  by (simp add: Model_remove_def)

text \<open>
  C4. The claim: \<open>read\<close> with a scalar id and \<open>remove\<close> with an id that match no stored
  task complete without raising an error, leave both stores unchanged and deliver an
  empty or undefined result. The code: \<open>findById\<close> hands \<open>undefined\<close> to the callback,
  which reads \<open>task.categoryId\<close> at once; a \<open>TypeError\<close> is thrown and the caller's
  callback never runs. Evaluated on a store with one task (id 11) and the missing id 12;
  the stores are indeed left as they were.
\<close>

theorem C4_missing_id_throws:
  "Model_read (QNumber 12)
     \<lparr>taskStorage = [[(''title'', JStr ''A''), (''categoryId'', JNum 10),
                      (''completed'', JBool False), (''id'', JNum 11)]],
      categoryStorage = [[(''name'', JStr ''Work''), (''id'', JNum 10)]]\<rparr> = Inl TypeError
   \<and> Model_read (QString ''12'')
     \<lparr>taskStorage = [[(''title'', JStr ''A''), (''categoryId'', JNum 10),
                      (''completed'', JBool False), (''id'', JNum 11)]],
      categoryStorage = [[(''name'', JStr ''Work''), (''id'', JNum 10)]]\<rparr> = Inl TypeError
   \<and> Model_remove (JNum 12)
     \<lparr>taskStorage = [[(''title'', JStr ''A''), (''categoryId'', JNum 10),
                      (''completed'', JBool False), (''id'', JNum 11)]],
      categoryStorage = [[(''name'', JStr ''Work''), (''id'', JNum 10)]]\<rparr>
     = (Inl TypeError,
        \<lparr>taskStorage = [[(''title'', JStr ''A''), (''categoryId'', JNum 10),
                         (''completed'', JBool False), (''id'', JNum 11)]],
         categoryStorage = [[(''name'', JStr ''Work''), (''id'', JNum 10)]]\<rparr>)"
  by code_simp

section \<open>Reading and writing properties\<close>

lemma map_of_filter_key:
  "map_of (filter (\<lambda>(k, v). P k) ob) k = (if P k then map_of ob k else None)"
  by (induction ob) auto

lemma get_json [simp]: "get (json ob) k = get ob k"
  by (simp add: get_def json_def map_of_filter_key)

lemma get_put [simp]: "get (put k v ob) k' = (if k' = k then v else get ob k')"
  by (simp add: get_def put_def update_conv')

lemma get_delete [simp]: "get (AList.delete k ob) k' = (if k' = k then JUndefined else get ob k')"
  by (simp add: get_def delete_conv')

lemma has_map_of: "has k ob \<longleftrightarrow> map_of ob k \<noteq> None"
  by (simp add: has_def map_of_eq_None_iff)

lemma has_put [simp]: "has k' (put k v ob) \<longleftrightarrow> k' = k \<or> has k' ob"
  by (auto simp: has_map_of put_def update_conv')

lemma has_delete [simp]: "has k' (AList.delete k ob) \<longleftrightarrow> k' \<noteq> k \<and> has k' ob"
  by (auto simp: has_map_of delete_conv')

lemma has_json: "has k (json ob) \<longleftrightarrow> has k ob \<and> get ob k \<noteq> JUndefined"
  by (auto simp: has_map_of json_def map_of_filter_key get_def split: option.splits)

lemma get_assign_keys:
  "get (foldl (\<lambda>it key. put key (get u key) it) item ks) k = (if k \<in> set ks then get u k else get item k)"
  by (induction ks arbitrary: item) auto

lemma get_assign [simp]: "get (assign u item) k = (if has k u then get u k else get item k)"
  by (simp add: assign_def get_assign_keys has_def)

lemma has_assign_keys:
  "has k (foldl (\<lambda>it key. put key (get u key) it) item ks) \<longleftrightarrow> k \<in> set ks \<or> has k item"
  by (induction ks arbitrary: item) auto

lemma has_assign [simp]: "has k (assign u item) \<longleftrightarrow> has k u \<or> has k item"
proof -
  have "has k u \<longleftrightarrow> k \<in> set (map fst u)" by (simp add: has_def)
  then show ?thesis unfolding assign_def has_assign_keys by simp
qed

lemma ids_map_json [simp]: "ids (map json items) = ids items"
  by (simp add: ids_def)

lemma ids_append [simp]: "ids (xs @ ys) = ids xs @ ids ys"
  by (simp add: ids_def)

lemma save_new_ids:
  "\<not> truthy idv \<Longrightarrow> ids (snd (Store_save now u idv items)) = ids items @ [JNum now]"
  by (simp add: Store_save_def Let_def) (simp add: ids_def)

lemma save_new_fresh:
  "\<not> truthy idv \<Longrightarrow> distinct (ids items) \<Longrightarrow> JNum now \<notin> set (ids items)
   \<Longrightarrow> distinct (ids (snd (Store_save now u idv items)))"
  by (simp add: save_new_ids)

section \<open>Equality of ids and the loops of the store\<close>

lemma loose_eq_refl [simp]: "loose_eq v v"
  by (cases v) simp_all

lemma loose_eq_num [simp]: "loose_eq (JNum a) (JNum b) \<longleftrightarrow> a = b"
  by simp

lemma loose_eq_num_string: "is_num a \<Longrightarrow> loose_eq a (JStr (show_int n)) \<longleftrightarrow> a = JNum n"
  by (cases a) (auto simp: is_num_def to_number_show_int)

declare loose_eq.simps [simp del]

lemma ids_Nil [simp]: "ids [] = []"
  by (simp add: ids_def)

lemma ids_Cons [simp]: "ids (x # xs) = get x ''id'' # ids xs"
  by (simp add: ids_def)

lemma in_ids: "x \<in> set items \<Longrightarrow> get x ''id'' \<in> set (ids items)"
  by (simp add: ids_def)

lemma numeric_idsD: "numeric_ids items \<Longrightarrow> x \<in> set items \<Longrightarrow> is_num (get x ''id'')"
  by (simp add: numeric_ids_def ids_def list_all_iff)

lemma find_strict_none:
  "\<forall>x\<in>set items. get x k \<noteq> v \<Longrightarrow> Store_find [(k, v)] items = []"
  by (auto simp: Store_find_def filter_empty_conv get_def)

lemma find_strict_unique:
  assumes "distinct (map (\<lambda>x. get x k) items)" "r \<in> set items" "get r k = v"
  shows "Store_find [(k, v)] items = [r]"
proof -
  have "filter (\<lambda>x. v = get x k) items = [r]"
    using assms
  proof (induction items)
    case Nil
    then show ?case by simp
  next
    case (Cons x xs)
    show ?case
    proof (cases "x = r")
      case True
      with Cons.prems have "\<forall>y\<in>set xs. get y k \<noteq> v" by (auto simp: image_iff)
      then have "filter (\<lambda>x. v = get x k) xs = []" by (auto simp: filter_empty_conv)
      with True Cons.prems show ?thesis by simp
    next
      case False
      with Cons.prems have "r \<in> set xs" by simp
      with Cons.prems have "get x k \<noteq> v" by auto
      with Cons.IH Cons.prems \<open>r \<in> set xs\<close> show ?thesis by auto
    qed
  qed
  moreover have "Store_find [(k, v)] items = filter (\<lambda>x. v = get x k) items"
    by (simp add: Store_find_def get_def)
  ultimately show ?thesis by simp
qed

lemma Store_remove_eq:
  "Store_remove idv items = (remove_loop idv items, map json (remove_loop idv items))"
  by (simp add: Store_remove_def Let_def)

section \<open>Evaluations\<close>

text \<open>
  C7. The claim: every \<open>save\<close> without an id gives the new record an id different from
  the id of every record already in the collection. The code: the id is the clock
  reading \<open>new Date().getTime()\<close>, so two saves within the same millisecond (here
  both at reading 5) leave two records with the same id. The record is appended and the
  callback receives the one-element list, as claimed; \<open>save_new_fresh\<close> above is the
  uniqueness that does hold, for a clock reading not yet among the ids.
\<close>

theorem C7_same_instant_same_id:
  "Store_save 5 [(''title'', JStr ''a'')] JUndefined []
     = ([[(''title'', JStr ''a''), (''id'', JNum 5)]], [[(''title'', JStr ''a''), (''id'', JNum 5)]])
   \<and> Store_save 5 [(''title'', JStr ''b'')] JUndefined [[(''title'', JStr ''a''), (''id'', JNum 5)]]
     = ([[(''title'', JStr ''b''), (''id'', JNum 5)]],
        [[(''title'', JStr ''a''), (''id'', JNum 5)], [(''title'', JStr ''b''), (''id'', JNum 5)]])
   \<and> \<not> distinct (ids [[(''title'', JStr ''a''), (''id'', JNum 5)], [(''title'', JStr ''b''), (''id'', JNum 5)]])"
  by code_simp

text \<open>
  C5. The claim: for each call shape of \<open>read\<close>, a returned task whose \<open>categoryId\<close>
  matches no stored category has \<open>categoryName\<close> undefined and the read raises no
  error. The code: with no query and with an object the name comes from the \<open>Map\<close> and
  is \<open>undefined\<close>; with a scalar id, \<open>categoryStorage.findById\<close> hands \<open>undefined\<close> to
  the callback, which reads \<open>category.name\<close>: a \<open>TypeError\<close>. Evaluated on one task
  (id 11) whose category 10 is not stored.
\<close>

theorem C5_dangling_scalar_read_throws:
  "Model_read (QNumber 11)
     \<lparr>taskStorage = [[(''title'', JStr ''A''), (''categoryId'', JNum 10),
                      (''completed'', JBool False), (''id'', JNum 11)]],
      categoryStorage = []\<rparr> = Inl TypeError
   \<and> Model_read QFunction
     \<lparr>taskStorage = [[(''title'', JStr ''A''), (''categoryId'', JNum 10),
                      (''completed'', JBool False), (''id'', JNum 11)]],
      categoryStorage = []\<rparr>
     = Inr (Records [[(''title'', JStr ''A''), (''categoryId'', JNum 10),
                      (''completed'', JBool False), (''id'', JNum 11), (''categoryName'', JUndefined)]])
   \<and> Model_read (QObject [(''completed'', JBool False)])
     \<lparr>taskStorage = [[(''title'', JStr ''A''), (''categoryId'', JNum 10),
                      (''completed'', JBool False), (''id'', JNum 11)]],
      categoryStorage = []\<rparr>
     = Inr (Records [[(''title'', JStr ''A''), (''categoryId'', JNum 10),
                      (''completed'', JBool False), (''id'', JNum 11), (''categoryName'', JUndefined)]])"
  by code_simp

text \<open>
  C1. The claim: after every sequence of \<open>create\<close> and \<open>update\<close> calls from empty
  stores there is at most one category per trimmed name. The code: \<open>create\<close> trims the
  name before resolving it, \<open>update\<close> resolves \<open>data.categoryName\<close> as it is. Two tasks
  are created in \<open>Work\<close>; updating the first with the name \<open>  Work  \<close> (padded) creates a
  second category, and the first category stays because the second task still refers to
  it: two categories whose trimmed name is \<open>Work\<close>. (The names as stored do stay
  pairwise different: \<open>run_from_empty_stored\<close> below.)
\<close>

theorem C1_update_does_not_trim:
  "categoryStorage
     (run [Create 1 2 (JStr ''A'') (JStr ''Work''), Create 3 4 (JStr ''B'') (JStr ''Work''),
           Update 5 (JNum 2) [(''categoryName'', JStr '' Work '')]] empty_stores)
     = [[(''name'', JStr ''Work''), (''id'', JNum 1)], [(''name'', JStr '' Work ''), (''id'', JNum 5)]]
   \<and> map trimmed_name
        [[(''name'', JStr ''Work''), (''id'', JNum 1)], [(''name'', JStr '' Work ''), (''id'', JNum 5)]]
     = [JStr ''Work'', JStr ''Work'']
   \<and> \<not> unique_trimmed_names
     (run [Create 1 2 (JStr ''A'') (JStr ''Work''), Create 3 4 (JStr ''B'') (JStr ''Work''),
           Update 5 (JNum 2) [(''categoryName'', JStr '' Work '')]] empty_stores)"
  by code_simp

section \<open>Clearing the stores\<close>

text \<open>
  C8. \<open>removeAll\<close> leaves both stores empty, whatever they held, and calls its callback
  with the empty list; a second \<open>removeAll\<close> right after does the same, and a read then
  returns no task and the category store returns no category. (Without a callback the
  stores are emptied all the same, before \<open>callback.call\<close> throws.)
\<close>

theorem C8_removeAll_clears_everything:
  "Model_removeAll True s = (Inr [], empty_stores)
   \<and> Model_removeAll True (snd (Model_removeAll True s)) = (Inr [], empty_stores)
   \<and> Model_read QFunction empty_stores = Inr (Records [])
   \<and> Store_findAll (categoryStorage empty_stores) = []
   \<and> snd (Model_removeAll False s) = empty_stores"
  by (simp add: Model_removeAll_def Store_drop_def empty_stores_def joinCategories_def
      Store_findAll_def)

text \<open>The earlier revision left the categories in place.\<close>

lemma removeAll_early_keeps_categories:
  "categoryStorage (snd (Model_removeAll_early s)) = categoryStorage s"
  by (simp add: Model_removeAll_early_def)

section \<open>Reading with an object predicate\<close>

lemma map_add_upd_left: "(m(k \<mapsto> v)) ++ M = m ++ ([k \<mapsto> v] ++ M)"
  by (rule ext) (simp add: map_add_def split: option.splits)

lemma foldl_update_map_of:
  "map_of (foldl (\<lambda>m c. AList.update (f c) (g c) m) m0 cs)
     = map_of m0 ++ map_of (rev (map (\<lambda>c. (f c, g c)) cs))"
proof (induction cs arbitrary: m0)
  case Nil
  show ?case by simp
next
  case (Cons c cs)
  have "map_of (foldl (\<lambda>m c. AList.update (f c) (g c) m) m0 (c # cs))
      = map_of (AList.update (f c) (g c) m0) ++ map_of (rev (map (\<lambda>c. (f c, g c)) cs))"
    by (simp add: Cons.IH)
  also have "\<dots> = (map_of m0)(f c \<mapsto> g c) ++ map_of (rev (map (\<lambda>c. (f c, g c)) cs))"
    by (simp only: update_conv')
  also have "\<dots> = map_of m0 ++ ([f c \<mapsto> g c] ++ map_of (rev (map (\<lambda>c. (f c, g c)) cs)))"
    by (rule map_add_upd_left)
  also have "[f c \<mapsto> g c] ++ map_of (rev (map (\<lambda>c. (f c, g c)) cs))
      = map_of (rev (map (\<lambda>c. (f c, g c)) (c # cs)))"
    by simp
  finally show ?case .
qed

lemma categoryMap_map_of:
  "map_of (categoryMap cats) = map_of (rev (map (\<lambda>c. (get c ''id'', get c ''name'')) cats))"
  by (simp add: categoryMap_def foldl_update_map_of)

lemma categoryMap_found:
  assumes "distinct (ids cats)" "c \<in> set cats"
  shows "map_get (categoryMap cats) (get c ''id'') = get c ''name''"
proof -
  let ?xs = "rev (map (\<lambda>c. (get c ''id'', get c ''name'')) cats)"
  have "distinct (map fst ?xs)" using assms(1) by (simp add: ids_def rev_map [symmetric] comp_def)
  moreover have "(get c ''id'', get c ''name'') \<in> set ?xs" using assms(2) by auto
  ultimately have "map_of ?xs (get c ''id'') = Some (get c ''name'')" by (rule map_of_is_SomeI)
  then show ?thesis by (simp add: map_get_def categoryMap_map_of)
qed

lemma categoryMap_missing:
  assumes "\<forall>c\<in>set cats. get c ''id'' \<noteq> k"
  shows "map_get (categoryMap cats) k = JUndefined"
proof -
  let ?xs = "rev (map (\<lambda>c. (get c ''id'', get c ''name'')) cats)"
  have "k \<notin> fst ` set ?xs" using assms by auto
  then have "map_of ?xs k = None" by (simp add: map_of_eq_None_iff)
  then show ?thesis by (simp add: map_get_def categoryMap_map_of)
qed

lemma Store_find_filter:
  "Store_find q items = filter (\<lambda>item. \<forall>k\<in>set (map fst q). get item k = get q k) items"
  by (auto simp: Store_find_def list_all_iff intro!: filter_cong)


lemma joinCategories_eq:
  "joinCategories tasks s
     = map (\<lambda>task. put ''categoryName'' (map_get (categoryMap (categoryStorage s)) (get task ''categoryId'')) task) tasks"
  by (simp add: joinCategories_def Store_findAll_def)

lemma read_object_eq:
  "Model_read (QObject q) s
     = Inr (Records (joinCategories (filter (\<lambda>task. \<forall>k\<in>set (map fst q). get task k = get q k) (taskStorage s)) s))"
  by (simp only: Model_read.simps Store_find_filter)

lemma list_all2_map_self: "(\<And>x. x \<in> set xs \<Longrightarrow> P (f x) x) \<Longrightarrow> list_all2 P (map f xs) xs"
  by (induction xs) simp_all

lemma categoryMap_some:
  assumes "c \<in> set cats"
  shows "\<exists>c'\<in>set cats. get c' ''id'' = get c ''id'' \<and> map_get (categoryMap cats) (get c ''id'') = get c' ''name''"
proof -
  let ?xs = "rev (map (\<lambda>c. (get c ''id'', get c ''name'')) cats)"
  have "get c ''id'' \<in> fst ` set ?xs" using assms by force
  then obtain v where v: "map_of ?xs (get c ''id'') = Some v"
    by (cases "map_of ?xs (get c ''id'')") (auto simp: map_of_eq_None_iff)
  then have "(get c ''id'', v) \<in> set ?xs" by (rule map_of_SomeD)
  then obtain c' where "c' \<in> set cats" "get c' ''id'' = get c ''id''" "get c' ''name'' = v" by auto
  with v show ?thesis by (auto simp: map_get_def categoryMap_map_of)
qed

text \<open>
  C6. \<open>read\<close> with an object \<open>q\<close> calls back with one record for each task whose
  fields equal the fields of \<open>q\<close>, in store order and for no other task. Each record
  has the fields of its task and a \<open>categoryName\<close>: the name of a category whose id is
  the task's \<open>categoryId\<close> (of the category of that id when category ids are pairwise
  different, of the last one in general, since the id-to-name \<open>Map\<close> is built from all
  categories in store order), and \<open>undefined\<close> when there is no such category. Proved on
  the later revision; in the earlier one \<open>read\<close> with an object returned the tasks
  without a join (\<open>Model_read_object_early\<close>).
\<close>

theorem C6_read_object_joins:
  "\<exists>rs. Model_read (QObject q) s = Inr (Records rs)
     \<and> list_all2
         (\<lambda>r task.
            (\<forall>k. k \<noteq> ''categoryName'' \<longrightarrow> get r k = get task k)
          \<and> ((\<exists>c\<in>set (categoryStorage s). get c ''id'' = get task ''categoryId'') \<longrightarrow>
               (\<exists>c\<in>set (categoryStorage s).
                   get c ''id'' = get task ''categoryId'' \<and> get r ''categoryName'' = get c ''name''))
          \<and> (distinct (ids (categoryStorage s)) \<longrightarrow>
               (\<forall>c\<in>set (categoryStorage s).
                   get c ''id'' = get task ''categoryId'' \<longrightarrow> get r ''categoryName'' = get c ''name''))
          \<and> ((\<forall>c\<in>set (categoryStorage s). get c ''id'' \<noteq> get task ''categoryId'')
                \<longrightarrow> get r ''categoryName'' = JUndefined))
         rs (filter (\<lambda>task. \<forall>k\<in>set (map fst q). get task k = get q k) (taskStorage s))"
proof -
  let ?cats = "categoryStorage s"
  let ?name = "\<lambda>task. map_get (categoryMap ?cats) (get task ''categoryId'')"
  let ?join = "\<lambda>task. put ''categoryName'' (?name task) task"
  let ?ts = "filter (\<lambda>task. \<forall>k\<in>set (map fst q). get task k = get q k) (taskStorage s)"
  let ?P = "\<lambda>r task.
            (\<forall>k. k \<noteq> ''categoryName'' \<longrightarrow> get r k = get task k)
          \<and> ((\<exists>c\<in>set ?cats. get c ''id'' = get task ''categoryId'') \<longrightarrow>
               (\<exists>c\<in>set ?cats.
                   get c ''id'' = get task ''categoryId'' \<and> get r ''categoryName'' = get c ''name''))
          \<and> (distinct (ids ?cats) \<longrightarrow>
               (\<forall>c\<in>set ?cats.
                   get c ''id'' = get task ''categoryId'' \<longrightarrow> get r ''categoryName'' = get c ''name''))
          \<and> ((\<forall>c\<in>set ?cats. get c ''id'' \<noteq> get task ''categoryId'')
                \<longrightarrow> get r ''categoryName'' = JUndefined)"
  have rd: "Model_read (QObject q) s = Inr (Records (map ?join ?ts))"
    by (simp only: read_object_eq joinCategories_eq)
  have nm: "get (?join task) ''categoryName'' = ?name task" for task by simp
  have P: "?P (?join task) task" for task
  proof (intro conjI allI impI ballI)
    fix k :: string assume "k \<noteq> ''categoryName''"
    then show "get (?join task) k = get task k" by simp
  next
    assume "\<exists>c\<in>set ?cats. get c ''id'' = get task ''categoryId''"
    then obtain c where c: "c \<in> set ?cats" "get c ''id'' = get task ''categoryId''" by blast
    from categoryMap_some [OF c(1)] c(2)
    show "\<exists>c\<in>set ?cats. get c ''id'' = get task ''categoryId''
            \<and> get (?join task) ''categoryName'' = get c ''name''"
      unfolding nm by auto
  next
    fix c assume d: "distinct (ids ?cats)" and c: "c \<in> set ?cats"
      and eq: "get c ''id'' = get task ''categoryId''"
    have "?name task = get c ''name''" using categoryMap_found [OF d c] eq by simp
    then show "get (?join task) ''categoryName'' = get c ''name''" unfolding nm .
  next
    assume no: "\<forall>c\<in>set ?cats. get c ''id'' \<noteq> get task ''categoryId''"
    have "?name task = JUndefined" by (rule categoryMap_missing [OF no])
    then show "get (?join task) ''categoryName'' = JUndefined" unfolding nm .
  qed
  have "list_all2 ?P (map ?join ?ts) ?ts"
    by (rule list_all2_map_self) (rule P)
  with rd show ?thesis by blast
qed

theorem C6_witness:
  "Model_read (QObject [(''completed'', JBool False)])
       \<lparr>taskStorage =
          [[(''title'', JStr ''A''), (''categoryId'', JNum 10), (''completed'', JBool False), (''id'', JNum 11)],
           [(''title'', JStr ''B''), (''categoryId'', JNum 12), (''completed'', JBool True), (''id'', JNum 13)],
           [(''title'', JStr ''C''), (''categoryId'', JNum 99), (''completed'', JBool False), (''id'', JNum 14)]],
        categoryStorage =
          [[(''name'', JStr ''Work''), (''id'', JNum 10)], [(''name'', JStr ''Home''), (''id'', JNum 12)]]\<rparr>
     = Inr (Records
          [[(''title'', JStr ''A''), (''categoryId'', JNum 10), (''completed'', JBool False), (''id'', JNum 11),
            (''categoryName'', JStr ''Work'')],
           [(''title'', JStr ''C''), (''categoryId'', JNum 99), (''completed'', JBool False), (''id'', JNum 14),
            (''categoryName'', JUndefined)]])
   \<and> get [(''title'', JStr ''A''), (''categoryId'', JNum 10), (''completed'', JBool False), (''id'', JNum 11),
            (''categoryName'', JStr ''Work'')] ''categoryName''
     = get [(''name'', JStr ''Work''), (''id'', JNum 10)] ''name''
   \<and> get [(''title'', JStr ''C''), (''categoryId'', JNum 99), (''completed'', JBool False), (''id'', JNum 14),
            (''categoryName'', JUndefined)] ''categoryName''
     = JUndefined"
proof -
  let ?work = "[(''name'', JStr ''Work''), (''id'', JNum 10)]"
  let ?cats = "[?work, [(''name'', JStr ''Home''), (''id'', JNum 12)]]"
  let ?a = "[(''title'', JStr ''A''), (''categoryId'', JNum 10), (''completed'', JBool False), (''id'', JNum 11)]"
  let ?c = "[(''title'', JStr ''C''), (''categoryId'', JNum 99), (''completed'', JBool False), (''id'', JNum 14)]"
  let ?tasks = "[?a, [(''title'', JStr ''B''), (''categoryId'', JNum 12), (''completed'', JBool True), (''id'', JNum 13)], ?c]"
  let ?s = "\<lparr>taskStorage = ?tasks, categoryStorage = ?cats\<rparr>"
  let ?q = "[(''completed'', JBool False)]"
  let ?ra = "?a @ [(''categoryName'', JStr ''Work'')]"
  let ?rc = "?c @ [(''categoryName'', JUndefined)]"
  have d: "distinct (ids (categoryStorage ?s))" by code_simp
  have rd: "Model_read (QObject ?q) ?s = Inr (Records [?ra, ?rc])" by code_simp
  have f: "filter (\<lambda>task. \<forall>k\<in>set (map fst ?q). get task k = get ?q k) (taskStorage ?s) = [?a, ?c]"
    by (simp add: get_def)
  have w: "?work \<in> set (categoryStorage ?s)" by simp
  have ids: "get ?work ''id'' = get ?a ''categoryId''" by code_simp
  have no: "\<forall>c\<in>set (categoryStorage ?s). get c ''id'' \<noteq> get ?c ''categoryId''" by (simp add: get_def)
  from C6_read_object_joins [of ?q ?s] show ?thesis
  proof (elim exE conjE)
    fix rs
    assume rs: "Model_read (QObject ?q) ?s = Inr (Records rs)"
      and all: "list_all2
         (\<lambda>r task.
            (\<forall>k. k \<noteq> ''categoryName'' \<longrightarrow> get r k = get task k)
          \<and> ((\<exists>c\<in>set (categoryStorage ?s). get c ''id'' = get task ''categoryId'') \<longrightarrow>
               (\<exists>c\<in>set (categoryStorage ?s).
                   get c ''id'' = get task ''categoryId'' \<and> get r ''categoryName'' = get c ''name''))
          \<and> (distinct (ids (categoryStorage ?s)) \<longrightarrow>
               (\<forall>c\<in>set (categoryStorage ?s).
                   get c ''id'' = get task ''categoryId'' \<longrightarrow> get r ''categoryName'' = get c ''name''))
          \<and> ((\<forall>c\<in>set (categoryStorage ?s). get c ''id'' \<noteq> get task ''categoryId'')
                \<longrightarrow> get r ''categoryName'' = JUndefined))
         rs (filter (\<lambda>task. \<forall>k\<in>set (map fst ?q). get task k = get ?q k) (taskStorage ?s))"
    from rs rd have rs': "rs = [?ra, ?rc]" by simp
    from all have l: "list_all2
         (\<lambda>r task.
            (\<forall>k. k \<noteq> ''categoryName'' \<longrightarrow> get r k = get task k)
          \<and> ((\<exists>c\<in>set (categoryStorage ?s). get c ''id'' = get task ''categoryId'') \<longrightarrow>
               (\<exists>c\<in>set (categoryStorage ?s).
                   get c ''id'' = get task ''categoryId'' \<and> get r ''categoryName'' = get c ''name''))
          \<and> (distinct (ids (categoryStorage ?s)) \<longrightarrow>
               (\<forall>c\<in>set (categoryStorage ?s).
                   get c ''id'' = get task ''categoryId'' \<longrightarrow> get r ''categoryName'' = get c ''name''))
          \<and> ((\<forall>c\<in>set (categoryStorage ?s). get c ''id'' \<noteq> get task ''categoryId'')
                \<longrightarrow> get r ''categoryName'' = JUndefined))
         [?ra, ?rc] [?a, ?c]"
      unfolding f rs' .
    note both = l [unfolded list_all2_Cons]
    note A = both [THEN conjunct1, THEN conjunct2, THEN conjunct2, THEN conjunct1]
    note C = both [THEN conjunct2, THEN conjunct1, THEN conjunct2, THEN conjunct2, THEN conjunct2]
    from A [THEN mp, OF d, THEN bspec, OF w, THEN mp, OF ids]
    have 1: "get ?ra ''categoryName'' = get ?work ''name''" .
    from C [THEN mp, OF no] have 2: "get ?rc ''categoryName'' = JUndefined" .
    from rd 1 2 show ?thesis by simp
  qed
qed

section \<open>Resolving a category name, finding and saving a task\<close>

lemma Store_find_field: "Store_find [(k, v)] items = filter (\<lambda>x. get x k = v) items"
  by (auto simp: Store_find_def get_def intro!: filter_cong)

lemma put_id_name: "put ''id'' v [(''name'', n)] = [(''name'', n), (''id'', v)]"
  by (simp add: put_def)

lemma Store_save_new:
  "\<not> truthy idv \<Longrightarrow> Store_save now u idv items
     = ([put ''id'' (JNum now) u], map json (items @ [put ''id'' (JNum now) u]))"
  by (simp add: Store_save_def Let_def)

lemma Store_save_id:
  "truthy idv \<Longrightarrow> Store_save now u idv items = (save_loop idv u items, map json (save_loop idv u items))"
  by (simp add: Store_save_def Let_def)

lemma getCategoryIdByName_found:
  "Store_find [(''name'', n)] (categoryStorage s) = d # ds
   \<Longrightarrow> getCategoryIdByName now n s = (Inr (get d ''id''), s)"
  by (simp add: getCategoryIdByName_def)

lemma getCategoryIdByName_created:
  "Store_find [(''name'', n)] (categoryStorage s) = []
   \<Longrightarrow> getCategoryIdByName now n s
       = (Inr (JNum now),
          s\<lparr>categoryStorage := map json (categoryStorage s @ [[(''name'', n), (''id'', JNum now)]])\<rparr>)"
  by (simp add: getCategoryIdByName_def Store_save_new put_id_name get_def)

lemma getCategoryIdByName_cases:
  obtains (found) d ds where "Store_find [(''name'', n)] (categoryStorage s) = d # ds"
      "getCategoryIdByName now n s = (Inr (get d ''id''), s)"
  | (created) "Store_find [(''name'', n)] (categoryStorage s) = []"
      "getCategoryIdByName now n s
       = (Inr (JNum now),
          s\<lparr>categoryStorage := map json (categoryStorage s @ [[(''name'', n), (''id'', JNum now)]])\<rparr>)"
  by (cases "Store_find [(''name'', n)] (categoryStorage s)")
     (auto simp: getCategoryIdByName_found getCategoryIdByName_created)

lemma findById_split:
  assumes "Store_findById idv items = Some task"
  shows "\<exists>pre post. items = pre @ task # post
           \<and> (\<forall>x\<in>set pre. \<not> loose_eq (get x ''id'') idv) \<and> loose_eq (get task ''id'') idv"
proof -
  from assms obtain i where i: "i < length items" "loose_eq (get (items ! i) ''id'') idv"
      "task = items ! i" "\<forall>j<i. \<not> loose_eq (get (items ! j) ''id'') idv"
    unfolding Store_findById_def find_Some_iff by blast
  have "items = take i items @ task # drop (Suc i) items"
    using i(1,3) by (simp add: id_take_nth_drop)
  moreover have "\<forall>x\<in>set (take i items). \<not> loose_eq (get x ''id'') idv"
    using i(1,4) by (auto simp: in_set_conv_nth)
  ultimately show ?thesis using i(2,3) by blast
qed

lemma findById_mem: "Store_findById idv items = Some task \<Longrightarrow> task \<in> set items"
  using findById_split by fastforce

lemma remove_loop_split:
  "\<forall>x\<in>set pre. \<not> loose_eq (get x ''id'') idv \<Longrightarrow> loose_eq (get task ''id'') idv
   \<Longrightarrow> remove_loop idv (pre @ task # post) = pre @ post"
  by (induction pre) simp_all

lemma save_loop_split:
  "\<forall>x\<in>set pre. get x ''id'' \<noteq> idv \<Longrightarrow> get task ''id'' = idv
   \<Longrightarrow> save_loop idv u (pre @ task # post) = pre @ assign u task # post"
  by (induction pre) simp_all

lemma not_loose_not_strict: "\<not> loose_eq a b \<Longrightarrow> a \<noteq> b"
  by auto

lemma remove1_split:
  "\<forall>x\<in>set pre. x \<noteq> task \<Longrightarrow> remove1 task (pre @ task # post) = pre @ post"
  by (induction pre) auto

lemma findById_remove1:
  assumes "Store_findById idv items = Some task"
  shows "remove_loop idv items = remove1 task items"
proof -
  from findById_split [OF assms] obtain pre post where
    s: "items = pre @ task # post" "\<forall>x\<in>set pre. \<not> loose_eq (get x ''id'') idv"
       "loose_eq (get task ''id'') idv" by blast
  then have "\<forall>x\<in>set pre. x \<noteq> task" by auto
  then show ?thesis using s by (simp add: remove_loop_split remove1_split)
qed

lemma filter_remove1_length:
  "P x \<Longrightarrow> x \<in> set xs \<Longrightarrow> length (filter P xs) = Suc (length (filter P (remove1 x xs)))"
  by (induction xs) auto

lemma count_le_1_iff:
  assumes "task \<in> set tasks" "get task k = v"
  shows "length (Store_find [(k, v)] tasks) \<le> 1 \<longleftrightarrow> Store_find [(k, v)] (remove1 task tasks) = []"
  using filter_remove1_length [of "\<lambda>x. get x k = v" task tasks] assms
  by (simp add: Store_find_field)

lemma ids_remove_loop:
  "numeric_ids xs \<Longrightarrow> is_num idv \<Longrightarrow> ids (remove_loop idv xs) = remove1 idv (ids xs)"
proof (induction xs)
  case Nil
  then show ?case by simp
next
  case (Cons x xs)
  then have "is_num (get x ''id'')" "numeric_ids xs" by (simp_all add: numeric_ids_def)
  with Cons show ?case
    by (cases "get x ''id''"; cases idv) (auto simp: is_num_def)
qed

lemma numeric_ids_json [simp]: "numeric_ids (map json xs) = numeric_ids xs"
  by (simp add: numeric_ids_def)

lemma numeric_ids_append [simp]: "numeric_ids (xs @ ys) \<longleftrightarrow> numeric_ids xs \<and> numeric_ids ys"
  by (simp add: numeric_ids_def)

lemma Store_remove_ids:
  "numeric_ids xs \<Longrightarrow> is_num idv \<Longrightarrow> ids (snd (Store_remove idv xs)) = remove1 idv (ids xs)"
  by (simp add: Store_remove_eq ids_remove_loop)


lemma save_id_split:
  assumes "Store_findById idv items = Some task" "get task ''id'' = idv" "truthy idv"
  shows "\<exists>pre post. items = pre @ task # post
     \<and> Store_save now u idv items
         = (pre @ assign u task # post, map json pre @ json (assign u task) # map json post)"
proof -
  from findById_split [OF assms(1)] obtain pre post where
    s: "items = pre @ task # post" "\<forall>x\<in>set pre. \<not> loose_eq (get x ''id'') idv" by blast
  then have "\<forall>x\<in>set pre. get x ''id'' \<noteq> idv" using not_loose_not_strict by blast
  then have "save_loop idv u items = pre @ assign u task # post"
    using s(1) assms(2) by (simp add: save_loop_split)
  then have "Store_save now u idv items
         = (pre @ assign u task # post, map json pre @ json (assign u task) # map json post)"
    using assms(3) by (simp add: Store_save_id)
  with s(1) show ?thesis by blast
qed

section \<open>Updating a task within its category\<close>

text \<open>
  C10. A task found under \<open>id\<close> refers to the stored category \<open>c\<close>, category names
  are pairwise different, and \<open>data.categoryName\<close> is exactly the name of \<open>c\<close>. Then
  \<open>update\<close> leaves the category store as it is, and on the task store it does what
  \<open>save\<close> does with the remaining fields of \<open>data\<close>. For an id that is truthy and
  strictly equal to the task's, and \<open>data\<close> without a \<open>categoryId\<close> of its own: the
  task keeps its place and its \<open>categoryId\<close>, takes every remaining field of \<open>data\<close>,
  and keeps every other field.
\<close>

theorem C10_same_category_update:
  assumes task: "Store_findById idv (taskStorage s) = Some task"
    and c: "c \<in> set (categoryStorage s)"
    and ref: "get task ''categoryId'' = get c ''id''"
    and names: "distinct (map (\<lambda>x. get x ''name'') (categoryStorage s))"
    and cn: "has ''categoryName'' data"
    and same: "get data ''categoryName'' = get c ''name''"
  shows "categoryStorage (snd (Model_update now idv data s)) = categoryStorage s
     \<and> Model_update now idv data s
        = (Inr (fst (Store_save now (AList.delete ''categoryName'' data) idv (taskStorage s))),
           s\<lparr>taskStorage := snd (Store_save now (AList.delete ''categoryName'' data) idv (taskStorage s))\<rparr>)
     \<and> (truthy idv \<and> get task ''id'' = idv \<and> \<not> has ''categoryId'' data \<longrightarrow>
        (\<exists>pre post task'.
            taskStorage s = pre @ task # post
          \<and> taskStorage (snd (Model_update now idv data s)) = map json pre @ task' # map json post
          \<and> get task' ''categoryId'' = get task ''categoryId''
          \<and> (\<forall>k. has k data \<and> k \<noteq> ''categoryName'' \<longrightarrow> get task' k = get data k)
          \<and> (\<forall>k. \<not> has k data \<or> k = ''categoryName'' \<longrightarrow> get task' k = get task k)))"
proof -
  let ?data1 = "AList.delete ''categoryName'' data"
  have "Store_find [(''name'', get c ''name'')] (categoryStorage s) = [c]"
    by (rule find_strict_unique [OF names c refl])
  then have gc: "getCategoryIdByName now (get data ''categoryName'') s = (Inr (get c ''id''), s)"
    by (simp add: getCategoryIdByName_found same)
  have upd: "Model_update now idv data s
        = (Inr (fst (Store_save now ?data1 idv (taskStorage s))),
           s\<lparr>taskStorage := snd (Store_save now ?data1 idv (taskStorage s))\<rparr>)"
    by (simp add: Model_update_def cn gc task ref Let_def split: prod.splits)
  have merged: "\<exists>pre post task'.
            taskStorage s = pre @ task # post
          \<and> taskStorage (snd (Model_update now idv data s)) = map json pre @ task' # map json post
          \<and> get task' ''categoryId'' = get task ''categoryId''
          \<and> (\<forall>k. has k data \<and> k \<noteq> ''categoryName'' \<longrightarrow> get task' k = get data k)
          \<and> (\<forall>k. \<not> has k data \<or> k = ''categoryName'' \<longrightarrow> get task' k = get task k)"
    if tr: "truthy idv" and strict: "get task ''id'' = idv" and nocid: "\<not> has ''categoryId'' data"
  proof -
    from save_id_split [OF task strict tr, of now ?data1] obtain pre post where
      sp: "taskStorage s = pre @ task # post"
        "Store_save now ?data1 idv (taskStorage s)
           = (pre @ assign ?data1 task # post, map json pre @ json (assign ?data1 task) # map json post)"
      by blast
    let ?task' = "json (assign ?data1 task)"
    have 1: "taskStorage (snd (Model_update now idv data s)) = map json pre @ ?task' # map json post"
      by (simp add: upd sp(2))
    have 2: "get ?task' ''categoryId'' = get task ''categoryId''" using nocid by simp
    have 3: "\<forall>k. has k data \<and> k \<noteq> ''categoryName'' \<longrightarrow> get ?task' k = get data k" by simp
    have 4: "\<forall>k. \<not> has k data \<or> k = ''categoryName'' \<longrightarrow> get ?task' k = get task k" by auto
    from sp(1) 1 2 3 4 show ?thesis by blast
  qed
  from upd merged show ?thesis by simp
qed


theorem C10_witness:
  "Model_update 20 (JNum 11) [(''title'', JStr ''A2''), (''categoryName'', JStr ''Work'')]
     \<lparr>taskStorage =
        [[(''title'', JStr ''A''), (''categoryId'', JNum 10), (''completed'', JBool False), (''id'', JNum 11)]],
      categoryStorage =
        [[(''name'', JStr ''Work''), (''id'', JNum 10)], [(''name'', JStr ''Home''), (''id'', JNum 12)]]\<rparr>
   = (Inr [[(''title'', JStr ''A2''), (''categoryId'', JNum 10), (''completed'', JBool False), (''id'', JNum 11)]],
      \<lparr>taskStorage =
        [[(''title'', JStr ''A2''), (''categoryId'', JNum 10), (''completed'', JBool False), (''id'', JNum 11)]],
      categoryStorage =
        [[(''name'', JStr ''Work''), (''id'', JNum 10)], [(''name'', JStr ''Home''), (''id'', JNum 12)]]\<rparr>)
   \<and> truthy (JNum 11)
   \<and> \<not> has ''categoryId'' [(''title'', JStr ''A2''), (''categoryName'', JStr ''Work'')]"
proof -
  let ?a = "[(''title'', JStr ''A''), (''categoryId'', JNum 10), (''completed'', JBool False), (''id'', JNum 11)]"
  let ?a' = "[(''title'', JStr ''A2''), (''categoryId'', JNum 10), (''completed'', JBool False), (''id'', JNum 11)]"
  let ?work = "[(''name'', JStr ''Work''), (''id'', JNum 10)]"
  let ?cats = "[?work, [(''name'', JStr ''Home''), (''id'', JNum 12)]]"
  let ?s = "\<lparr>taskStorage = [?a], categoryStorage = ?cats\<rparr>"
  let ?data = "[(''title'', JStr ''A2''), (''categoryName'', JStr ''Work'')]"
  have task: "Store_findById (JNum 11) (taskStorage ?s) = Some ?a" by code_simp
  have c: "?work \<in> set (categoryStorage ?s)" by simp
  have ref: "get ?a ''categoryId'' = get ?work ''id''" by code_simp
  have names: "distinct (map (\<lambda>x. get x ''name'') (categoryStorage ?s))" by code_simp
  have cn: "has ''categoryName'' ?data" by code_simp
  have same: "get ?data ''categoryName'' = get ?work ''name''" by code_simp
  have sv: "Store_save 20 (AList.delete ''categoryName'' ?data) (JNum 11) (taskStorage ?s) = ([?a'], [?a'])"
    by code_simp
  from C10_same_category_update [OF task c ref names cn same, of 20]
  have "Model_update 20 (JNum 11) ?data ?s
        = (Inr (fst (Store_save 20 (AList.delete ''categoryName'' ?data) (JNum 11) (taskStorage ?s))),
           ?s\<lparr>taskStorage := snd (Store_save 20 (AList.delete ''categoryName'' ?data) (JNum 11) (taskStorage ?s))\<rparr>)"
    by blast
  moreover have "\<not> has ''categoryId'' ?data" by code_simp
  ultimately show ?thesis unfolding sv by simp
qed


section \<open>Updating a task with a category name\<close>

lemma getCategoryIdByName_total:
  "\<exists>newId s1. getCategoryIdByName now n s = (Inr newId, s1) \<and> taskStorage s1 = taskStorage s"
  by (rule getCategoryIdByName_cases [of n s now]) simp_all

lemma Model_update_categoryName:
  assumes cn: "has ''categoryName'' data"
    and gc: "getCategoryIdByName now (get data ''categoryName'') s = (Inr newId, s1)"
    and ts: "taskStorage s1 = taskStorage s"
    and task: "Store_findById idv (taskStorage s) = Some task"
  shows "taskStorage (snd (Model_update now idv data s))
           = snd (Store_save now
               (if newId \<noteq> get task ''categoryId''
                then put ''categoryId'' newId (AList.delete ''categoryName'' data)
                else AList.delete ''categoryName'' data) idv (taskStorage s))"
    and "fst (Model_update now idv data s)
           = Inr (fst (Store_save now
               (if newId \<noteq> get task ''categoryId''
                then put ''categoryId'' newId (AList.delete ''categoryName'' data)
                else AList.delete ''categoryName'' data) idv (taskStorage s)))"
    and "categoryStorage (snd (Model_update now idv data s))
           = (if newId \<noteq> get task ''categoryId''
                \<and> length (Store_find [(''categoryId'', get task ''categoryId'')] (taskStorage s)) \<le> 1
              then snd (Store_remove (get task ''categoryId'') (categoryStorage s1))
              else categoryStorage s1)"
  using task by (simp_all add: Model_update_def cn gc ts Let_def split: prod.splits)

lemma getCategoryIdByName_resolves:
  "\<exists>newId s1. getCategoryIdByName now n s = (Inr newId, s1) \<and> taskStorage s1 = taskStorage s
     \<and> (case filter (\<lambda>c. get c ''name'' = n) (categoryStorage s) of
          [] \<Rightarrow> newId = JNum now
                \<and> s1 = s\<lparr>categoryStorage :=
                           map json (categoryStorage s @ [[(''name'', n), (''id'', JNum now)]])\<rparr>
        | c # _ \<Rightarrow> newId = get c ''id'' \<and> s1 = s)"
proof (rule getCategoryIdByName_cases [of n s now])
  fix d ds
  assume f: "Store_find [(''name'', n)] (categoryStorage s) = d # ds"
    and g: "getCategoryIdByName now n s = (Inr (get d ''id''), s)"
  from f have "filter (\<lambda>c. get c ''name'' = n) (categoryStorage s) = d # ds"
    by (simp add: Store_find_field)
  with g show ?thesis by simp
next
  assume f: "Store_find [(''name'', n)] (categoryStorage s) = []"
    and g: "getCategoryIdByName now n s
       = (Inr (JNum now),
          s\<lparr>categoryStorage := map json (categoryStorage s @ [[(''name'', n), (''id'', JNum now)]])\<rparr>)"
  from f have "filter (\<lambda>c. get c ''name'' = n) (categoryStorage s) = []"
    by (simp add: Store_find_field)
  with g show ?thesis by simp
qed

text \<open>
  C3. A task is found under \<open>id\<close>, which is truthy and strictly equal to the task's
  id, and \<open>data\<close> has a \<open>categoryName\<close>. Then \<open>_getCategoryIdByName\<close> resolves the
  name against the stored categories: if some category has exactly that name, the id of
  the first such category is the result and the category store is left alone; if none
  has, a category of that name is appended and its id, the clock reading, is the result.
  After \<open>update\<close> the stored task, in its old place, has no \<open>categoryName\<close> field, has
  the resolved id as its \<open>categoryId\<close>, has every other field of \<open>data\<close>, and keeps
  its remaining fields. The task is taken to have had no \<open>categoryName\<close> field before
  (the model never stores one: \<open>run_from_empty_stored\<close> below) and \<open>data\<close> to carry no
  \<open>categoryId\<close> of its own. Proved on the later revision; the earlier \<open>update\<close> saved
  \<open>data\<close> as it was (\<open>Model_update_early\<close>).
\<close>

theorem C3_update_with_categoryName:
  assumes task: "Store_findById idv (taskStorage s) = Some task"
    and strict: "get task ''id'' = idv" and tr: "truthy idv"
    and cn: "has ''categoryName'' data" and nocid: "\<not> has ''categoryId'' data"
    and tn: "\<not> has ''categoryName'' task"
  shows "\<exists>newId s1 r pre post task'.
      getCategoryIdByName now (get data ''categoryName'') s = (Inr newId, s1)
    \<and> (case filter (\<lambda>c. get c ''name'' = get data ''categoryName'') (categoryStorage s) of
          [] \<Rightarrow> newId = JNum now
                \<and> s1 = s\<lparr>categoryStorage :=
                           map json (categoryStorage s
                             @ [[(''name'', get data ''categoryName''), (''id'', JNum now)]])\<rparr>
        | c # _ \<Rightarrow> newId = get c ''id'' \<and> s1 = s)
    \<and> fst (Model_update now idv data s) = Inr r
    \<and> taskStorage s = pre @ task # post
    \<and> taskStorage (snd (Model_update now idv data s)) = map json pre @ task' # map json post
    \<and> \<not> has ''categoryName'' task'
    \<and> get task' ''categoryId'' = newId
    \<and> (\<forall>k. has k data \<and> k \<noteq> ''categoryName'' \<longrightarrow> get task' k = get data k)
    \<and> (\<forall>k. \<not> has k data \<and> k \<noteq> ''categoryId'' \<longrightarrow> get task' k = get task k)"
proof -
  from getCategoryIdByName_resolves [of now "get data ''categoryName''" s] obtain newId s1 where
    gc: "getCategoryIdByName now (get data ''categoryName'') s = (Inr newId, s1)"
    and ts: "taskStorage s1 = taskStorage s"
    and res: "case filter (\<lambda>c. get c ''name'' = get data ''categoryName'') (categoryStorage s) of
          [] \<Rightarrow> newId = JNum now
                \<and> s1 = s\<lparr>categoryStorage :=
                           map json (categoryStorage s
                             @ [[(''name'', get data ''categoryName''), (''id'', JNum now)]])\<rparr>
        | c # _ \<Rightarrow> newId = get c ''id'' \<and> s1 = s"
    by (elim exE conjE)
  let ?data1 = "AList.delete ''categoryName'' data"
  let ?data2 = "if newId \<noteq> get task ''categoryId'' then put ''categoryId'' newId ?data1 else ?data1"
  note upd = Model_update_categoryName [OF cn gc ts task]
  from save_id_split [OF task strict tr, of now ?data2] obtain pre post where
    sp: "taskStorage s = pre @ task # post"
      "Store_save now ?data2 idv (taskStorage s)
         = (pre @ assign ?data2 task # post, map json pre @ json (assign ?data2 task) # map json post)"
    by blast
  let ?task' = "json (assign ?data2 task)"
  have 1: "fst (Model_update now idv data s) = Inr (pre @ assign ?data2 task # post)"
    by (simp only: upd(2) sp(2) fst_conv)
  have 2: "taskStorage (snd (Model_update now idv data s)) = map json pre @ ?task' # map json post"
    by (simp only: upd(1) sp(2) snd_conv)
  have 3: "\<not> has ''categoryName'' ?task'" using tn by (simp add: has_json)
  have 4: "get ?task' ''categoryId'' = newId" using nocid by simp
  have 5: "\<forall>k. has k data \<and> k \<noteq> ''categoryName'' \<longrightarrow> get ?task' k = get data k" using nocid by auto
  have 6: "\<forall>k. \<not> has k data \<and> k \<noteq> ''categoryId'' \<longrightarrow> get ?task' k = get task k" by auto
  show ?thesis
    by (rule exI [of _ newId], rule exI [of _ s1], rule exI [of _ "pre @ assign ?data2 task # post"],
        rule exI [of _ pre], rule exI [of _ post], rule exI [of _ ?task'])
       (intro conjI, rule gc, rule res, rule 1, rule sp(1), rule 2, rule 3, rule 4, rule 5, rule 6)
qed

theorem C3_witness:
  "Model_update 20 (JNum 11) [(''title'', JStr ''A2''), (''categoryName'', JStr ''Home'')]
     \<lparr>taskStorage =
        [[(''title'', JStr ''A''), (''categoryId'', JNum 10), (''completed'', JBool False), (''id'', JNum 11)]],
      categoryStorage =
        [[(''name'', JStr ''Work''), (''id'', JNum 10)], [(''name'', JStr ''Home''), (''id'', JNum 12)]]\<rparr>
   = (Inr [[(''title'', JStr ''A2''), (''categoryId'', JNum 12), (''completed'', JBool False), (''id'', JNum 11)]],
      \<lparr>taskStorage =
        [[(''title'', JStr ''A2''), (''categoryId'', JNum 12), (''completed'', JBool False), (''id'', JNum 11)]],
      categoryStorage = [[(''name'', JStr ''Home''), (''id'', JNum 12)]]\<rparr>)
   \<and> (\<exists>task'. taskStorage (snd (Model_update 20 (JNum 11)
          [(''title'', JStr ''A2''), (''categoryName'', JStr ''Home'')]
          \<lparr>taskStorage =
             [[(''title'', JStr ''A''), (''categoryId'', JNum 10), (''completed'', JBool False), (''id'', JNum 11)]],
           categoryStorage =
             [[(''name'', JStr ''Work''), (''id'', JNum 10)], [(''name'', JStr ''Home''), (''id'', JNum 12)]]\<rparr>))
          = [task']
        \<and> \<not> has ''categoryName'' task'
        \<and> get task' ''categoryId'' = get [(''name'', JStr ''Home''), (''id'', JNum 12)] ''id''
        \<and> get task' ''title'' = JStr ''A2''
        \<and> get task' ''completed'' = JBool False)
   \<and> Model_update 20 (JNum 11) [(''title'', JStr ''A2''), (''categoryName'', JStr ''Home'')]
     \<lparr>taskStorage =
        [[(''title'', JStr ''A''), (''categoryId'', JNum 10), (''completed'', JBool False), (''id'', JNum 11)]],
      categoryStorage = [[(''name'', JStr ''Work''), (''id'', JNum 10)]]\<rparr>
   = (Inr [[(''title'', JStr ''A2''), (''categoryId'', JNum 20), (''completed'', JBool False), (''id'', JNum 11)]],
      \<lparr>taskStorage =
        [[(''title'', JStr ''A2''), (''categoryId'', JNum 20), (''completed'', JBool False), (''id'', JNum 11)]],
      categoryStorage = [[(''name'', JStr ''Home''), (''id'', JNum 20)]]\<rparr>)
   \<and> (\<exists>task'. taskStorage (snd (Model_update 20 (JNum 11)
          [(''title'', JStr ''A2''), (''categoryName'', JStr ''Home'')]
          \<lparr>taskStorage =
             [[(''title'', JStr ''A''), (''categoryId'', JNum 10), (''completed'', JBool False), (''id'', JNum 11)]],
           categoryStorage = [[(''name'', JStr ''Work''), (''id'', JNum 10)]]\<rparr>)) = [task']
        \<and> \<not> has ''categoryName'' task'
        \<and> get task' ''categoryId'' = JNum 20
        \<and> get task' ''title'' = JStr ''A2''
        \<and> get task' ''completed'' = JBool False)"
proof -
  let ?a = "[(''title'', JStr ''A''), (''categoryId'', JNum 10), (''completed'', JBool False), (''id'', JNum 11)]"
  let ?work = "[(''name'', JStr ''Work''), (''id'', JNum 10)]"
  let ?home = "[(''name'', JStr ''Home''), (''id'', JNum 12)]"
  let ?data = "[(''title'', JStr ''A2''), (''categoryName'', JStr ''Home'')]"
  have strict: "get ?a ''id'' = JNum 11" by code_simp
  have tr: "truthy (JNum 11)" by simp
  have cn: "has ''categoryName'' ?data" by code_simp
  have nocid: "\<not> has ''categoryId'' ?data" by code_simp
  have tn: "\<not> has ''categoryName'' ?a" by code_simp
  have ks: "has ''title'' ?data \<and> ''title'' \<noteq> ''categoryName''"
    "\<not> has ''completed'' ?data \<and> ''completed'' \<noteq> ''categoryId''" by code_simp+
  have dt: "get ?data ''title'' = JStr ''A2''" "get ?a ''completed'' = JBool False" by code_simp+
  have fields: "\<exists>task'. taskStorage (snd (Model_update 20 (JNum 11) ?data \<lparr>taskStorage = [?a], categoryStorage = cats\<rparr>)) = [task']
        \<and> \<not> has ''categoryName'' task'
        \<and> get task' ''categoryId'' = v
        \<and> get task' ''title'' = JStr ''A2''
        \<and> get task' ''completed'' = JBool False"
    if res: "\<And>newId s1.
       (case filter (\<lambda>c. get c ''name'' = get ?data ''categoryName'')
               (categoryStorage \<lparr>taskStorage = [?a], categoryStorage = cats\<rparr>) of
          [] \<Rightarrow> newId = JNum 20
                \<and> s1 = \<lparr>taskStorage = [?a], categoryStorage = cats\<rparr>\<lparr>categoryStorage :=
                           map json (categoryStorage \<lparr>taskStorage = [?a], categoryStorage = cats\<rparr>
                             @ [[(''name'', get ?data ''categoryName''), (''id'', JNum 20)]])\<rparr>
        | c # _ \<Rightarrow> newId = get c ''id'' \<and> s1 = \<lparr>taskStorage = [?a], categoryStorage = cats\<rparr>)
       \<Longrightarrow> newId = v"
    for cats v
  proof -
    let ?s = "\<lparr>taskStorage = [?a], categoryStorage = cats\<rparr>"
    have task: "Store_findById (JNum 11) (taskStorage ?s) = Some ?a"
      by (simp add: Store_findById_def strict)
    from C3_update_with_categoryName [OF task strict tr cn nocid tn, of 20] show ?thesis
    proof (elim exE conjE)
      fix newId s1 r pre post task'
      assume g: "case filter (\<lambda>c. get c ''name'' = get ?data ''categoryName'') (categoryStorage ?s) of
          [] \<Rightarrow> newId = JNum 20
                \<and> s1 = ?s\<lparr>categoryStorage :=
                           map json (categoryStorage ?s
                             @ [[(''name'', get ?data ''categoryName''), (''id'', JNum 20)]])\<rparr>
        | c # _ \<Rightarrow> newId = get c ''id'' \<and> s1 = ?s"
        and sp: "taskStorage ?s = pre @ ?a # post"
        and ts: "taskStorage (snd (Model_update 20 (JNum 11) ?data ?s)) = map json pre @ task' # map json post"
        and nh: "\<not> has ''categoryName'' task'"
        and ci: "get task' ''categoryId'' = newId"
        and m: "\<forall>k. has k ?data \<and> k \<noteq> ''categoryName'' \<longrightarrow> get task' k = get ?data k"
        and k: "\<forall>k. \<not> has k ?data \<and> k \<noteq> ''categoryId'' \<longrightarrow> get task' k = get ?a k"
      from sp have "pre = [] \<and> post = []" by (cases pre) simp_all
      with ts have 1: "taskStorage (snd (Model_update 20 (JNum 11) ?data ?s)) = [task']" by simp
      have "newId = v" by (rule res) (rule g)
      with ci have 2: "get task' ''categoryId'' = v" by simp
      from m [rule_format, OF ks(1)] have 3: "get task' ''title'' = JStr ''A2''"
        by (simp only: dt(1))
      from k [rule_format, OF ks(2)] have 4: "get task' ''completed'' = JBool False"
        by (simp only: dt(2))
      show ?thesis
        by (rule exI [of _ task'], intro conjI, rule 1, rule nh, rule 2, rule 3, rule 4)
    qed
  qed
  have reuse: "Model_update 20 (JNum 11) ?data \<lparr>taskStorage = [?a], categoryStorage = [?work, ?home]\<rparr>
     = (Inr [[(''title'', JStr ''A2''), (''categoryId'', JNum 12), (''completed'', JBool False), (''id'', JNum 11)]],
        \<lparr>taskStorage =
          [[(''title'', JStr ''A2''), (''categoryId'', JNum 12), (''completed'', JBool False), (''id'', JNum 11)]],
         categoryStorage = [?home]\<rparr>)"
    by code_simp
  have create: "Model_update 20 (JNum 11) ?data \<lparr>taskStorage = [?a], categoryStorage = [?work]\<rparr>
     = (Inr [[(''title'', JStr ''A2''), (''categoryId'', JNum 20), (''completed'', JBool False), (''id'', JNum 11)]],
        \<lparr>taskStorage =
          [[(''title'', JStr ''A2''), (''categoryId'', JNum 20), (''completed'', JBool False), (''id'', JNum 11)]],
         categoryStorage = [[(''name'', JStr ''Home''), (''id'', JNum 20)]]\<rparr>)"
    by code_simp
  have r1: "\<exists>task'. taskStorage (snd (Model_update 20 (JNum 11) ?data \<lparr>taskStorage = [?a], categoryStorage = [?work, ?home]\<rparr>)) = [task']
        \<and> \<not> has ''categoryName'' task'
        \<and> get task' ''categoryId'' = get ?home ''id''
        \<and> get task' ''title'' = JStr ''A2''
        \<and> get task' ''completed'' = JBool False"
    by (rule fields) (simp add: get_def)
  have r2: "\<exists>task'. taskStorage (snd (Model_update 20 (JNum 11) ?data \<lparr>taskStorage = [?a], categoryStorage = [?work]\<rparr>)) = [task']
        \<and> \<not> has ''categoryName'' task'
        \<and> get task' ''categoryId'' = JNum 20
        \<and> get task' ''title'' = JStr ''A2''
        \<and> get task' ''completed'' = JBool False"
    by (rule fields) (simp add: get_def)
  show ?thesis
    by (intro conjI) (rule reuse, rule r1, rule create, rule r2)
qed

section \<open>Removing the category of the last task\<close>

lemma Model_remove_categories:
  assumes "Store_findById idv (taskStorage s) = Some task"
  shows "categoryStorage (snd (Model_remove idv s))
           = (if length (Store_find [(''categoryId'', get task ''categoryId'')] (taskStorage s)) \<le> 1
              then snd (Store_remove (get task ''categoryId'') (categoryStorage s))
              else categoryStorage s)"
  using assms by (simp add: Model_remove_def Let_def split: prod.splits)

lemma distinct_ids_eq:
  "distinct (ids xs) \<Longrightarrow> x \<in> set xs \<Longrightarrow> y \<in> set xs \<Longrightarrow> get x ''id'' = get y ''id'' \<Longrightarrow> x = y"
  by (simp add: ids_def distinct_map inj_on_def)

lemma removed_id_gone:
  assumes "numeric_ids xs" "distinct (ids xs)" "is_num v"
  shows "v \<notin> set (ids (snd (Store_remove v xs)))"
  using assms by (simp add: Store_remove_ids)

lemma other_id_stays:
  assumes "numeric_ids xs" "is_num v" "w \<in> set (ids xs)" "w \<noteq> v"
  shows "w \<in> set (ids (snd (Store_remove v xs)))"
  using assms by (simp add: Store_remove_ids)

lemma resolve_other_name:
  assumes num: "numeric_ids (categoryStorage s)" and dist: "distinct (ids (categoryStorage s))"
    and C: "C \<in> set (categoryStorage s)" and other: "n \<noteq> get C ''name''"
    and fresh: "JNum now \<notin> set (ids (categoryStorage s))"
  shows "\<exists>newId s1. getCategoryIdByName now n s = (Inr newId, s1)
      \<and> taskStorage s1 = taskStorage s \<and> newId \<noteq> get C ''id''
      \<and> numeric_ids (categoryStorage s1) \<and> distinct (ids (categoryStorage s1))
      \<and> set (ids (categoryStorage s)) \<subseteq> set (ids (categoryStorage s1))"
proof (rule getCategoryIdByName_cases [of n s now])
  fix d ds
  assume f: "Store_find [(''name'', n)] (categoryStorage s) = d # ds"
    and g: "getCategoryIdByName now n s = (Inr (get d ''id''), s)"
  from f have "d \<in> set (filter (\<lambda>x. get x ''name'' = n) (categoryStorage s))"
    by (simp add: Store_find_field)
  then have d: "d \<in> set (categoryStorage s)" "get d ''name'' = n" by simp_all
  with other have "d \<noteq> C" by auto
  with distinct_ids_eq [OF dist d(1) C] have "get d ''id'' \<noteq> get C ''id''" by blast
  with g num dist show ?thesis by simp
next
  assume g: "getCategoryIdByName now n s
       = (Inr (JNum now),
          s\<lparr>categoryStorage := map json (categoryStorage s @ [[(''name'', n), (''id'', JNum now)]])\<rparr>)"
  have new: "get [(''name'', n), (''id'', JNum now)] ''id'' = JNum now" by (simp add: get_def)
  from C fresh have "JNum now \<noteq> get C ''id''" using in_ids by metis
  moreover have "numeric_ids (map json (categoryStorage s @ [[(''name'', n), (''id'', JNum now)]]))"
    using num by (simp add: numeric_ids_def new is_num_def)
  moreover have "distinct (ids (map json (categoryStorage s @ [[(''name'', n), (''id'', JNum now)]])))"
    using dist fresh by (simp add: new)
  moreover have "set (ids (categoryStorage s))
      \<subseteq> set (ids (map json (categoryStorage s @ [[(''name'', n), (''id'', JNum now)]])))"
    by auto
  ultimately show ?thesis using g by simp
qed


text \<open>
  What the cleanup does when ids identify categories. The category store has numeric,
  pairwise different ids and holds \<open>C\<close>; the task found under \<open>id\<close> refers to \<open>C\<close>.
  When no other task refers to \<open>C\<close>, \<open>C\<close> is not in the category store after \<open>remove\<close>
  of the task, nor after an \<open>update\<close> of the task with a \<open>categoryName\<close> other than
  the name of \<open>C\<close>, provided the clock reading of the \<open>update\<close> is none of the ids in
  the category store. And whenever one of the remaining tasks refers to a category \<open>D\<close>,
  the id of \<open>D\<close> is still in the category store after either operation: the test
  \<open>data.length <= 1\<close> counts the task itself, so it holds exactly when no remaining task
  refers to the category.
\<close>

lemma orphan_cleanup_unique_ids:
  assumes num: "numeric_ids (categoryStorage s)" and dist: "distinct (ids (categoryStorage s))"
    and C: "C \<in> set (categoryStorage s)"
    and task: "Store_findById idv (taskStorage s) = Some task"
    and ref: "get task ''categoryId'' = get C ''id''"
    and cn: "has ''categoryName'' data" and other: "get data ''categoryName'' \<noteq> get C ''name''"
    and fresh: "JNum now \<notin> set (ids (categoryStorage s))"
  shows "(Store_find [(''categoryId'', get C ''id'')] (remove1 task (taskStorage s)) = [] \<longrightarrow>
            C \<notin> set (Store_findAll (categoryStorage (snd (Model_remove idv s))))
          \<and> C \<notin> set (Store_findAll (categoryStorage (snd (Model_update now idv data s)))))
       \<and> (\<forall>D\<in>set (categoryStorage s). \<forall>t\<in>set (remove1 task (taskStorage s)).
            get t ''categoryId'' = get D ''id'' \<longrightarrow>
              get D ''id'' \<in> set (ids (categoryStorage (snd (Model_remove idv s))))
            \<and> get D ''id'' \<in> set (ids (categoryStorage (snd (Model_update now idv data s)))))"
proof -
  let ?cid = "get C ''id''"
  let ?others = "Store_find [(''categoryId'', ?cid)] (remove1 task (taskStorage s))"
  let ?rem = "categoryStorage (snd (Model_remove idv s))"
  let ?upd = "categoryStorage (snd (Model_update now idv data s))"
  have cnum: "is_num ?cid" by (rule numeric_idsD [OF num C])
  have mem: "task \<in> set (taskStorage s)" by (rule findById_mem [OF task])
  have count: "length (Store_find [(''categoryId'', ?cid)] (taskStorage s)) \<le> 1 \<longleftrightarrow> ?others = []"
    by (rule count_le_1_iff [OF mem ref])
  have rem: "?rem = (if ?others = [] then snd (Store_remove ?cid (categoryStorage s)) else categoryStorage s)"
    by (simp only: Model_remove_categories [OF task] ref count)
  from resolve_other_name [OF num dist C other fresh] obtain newId s1 where
    gc: "getCategoryIdByName now (get data ''categoryName'') s = (Inr newId, s1)"
    and ts: "taskStorage s1 = taskStorage s" and ne: "newId \<noteq> ?cid"
    and num1: "numeric_ids (categoryStorage s1)" and dist1: "distinct (ids (categoryStorage s1))"
    and sub: "set (ids (categoryStorage s)) \<subseteq> set (ids (categoryStorage s1))" by blast
  have upd: "?upd = (if ?others = [] then snd (Store_remove ?cid (categoryStorage s1)) else categoryStorage s1)"
    by (simp only: Model_update_categoryName(3) [OF cn gc ts task] ref count) (simp add: ne)
  have a: "C \<notin> set (Store_findAll ?rem)" and c: "C \<notin> set (Store_findAll ?upd)" if "?others = []"
  proof -
    have "?cid \<notin> set (ids ?rem)" using that rem removed_id_gone [OF num dist cnum] by simp
    then show "C \<notin> set (Store_findAll ?rem)" using in_ids [of C ?rem] by (auto simp: Store_findAll_def)
    have "?cid \<notin> set (ids ?upd)" using that upd removed_id_gone [OF num1 dist1 cnum] by simp
    then show "C \<notin> set (Store_findAll ?upd)" using in_ids [of C ?upd] by (auto simp: Store_findAll_def)
  qed
  have b: "get D ''id'' \<in> set (ids ?rem) \<and> get D ''id'' \<in> set (ids ?upd)"
    if D: "D \<in> set (categoryStorage s)" and t: "t \<in> set (remove1 task (taskStorage s))"
      and r: "get t ''categoryId'' = get D ''id''" for D t
  proof (cases "get D ''id'' = ?cid")
    case True
    with t r have "t \<in> set ?others" by (simp add: Store_find_field)
    then have "?others \<noteq> []" by auto
    with rem upd in_ids [OF D] sub show ?thesis by auto
  next
    case False
    have 0: "get D ''id'' \<in> set (ids (categoryStorage s))" by (rule in_ids [OF D])
    with sub have 1: "get D ''id'' \<in> set (ids (categoryStorage s1))" by blast
    from other_id_stays [OF num cnum 0 False] other_id_stays [OF num1 cnum 1 False] 0 1 rem upd
    show ?thesis by (cases "?others = []") simp_all
  qed
  from a c b show ?thesis by blast
qed

lemma orphan_cleanup_unique_ids_example:
  "[(''name'', JStr ''Work''), (''id'', JNum 10)]
     \<notin> set (Store_findAll (categoryStorage (snd (Model_remove (JNum 11)
         \<lparr>taskStorage =
            [[(''title'', JStr ''A''), (''categoryId'', JNum 10), (''completed'', JBool False), (''id'', JNum 11)],
             [(''title'', JStr ''B''), (''categoryId'', JNum 12), (''completed'', JBool False), (''id'', JNum 13)]],
          categoryStorage =
            [[(''name'', JStr ''Work''), (''id'', JNum 10)], [(''name'', JStr ''Home''), (''id'', JNum 12)]]\<rparr>))))
   \<and> [(''name'', JStr ''Work''), (''id'', JNum 10)]
     \<notin> set (Store_findAll (categoryStorage (snd (Model_update 20 (JNum 11) [(''categoryName'', JStr ''Home'')]
         \<lparr>taskStorage =
            [[(''title'', JStr ''A''), (''categoryId'', JNum 10), (''completed'', JBool False), (''id'', JNum 11)],
             [(''title'', JStr ''B''), (''categoryId'', JNum 12), (''completed'', JBool False), (''id'', JNum 13)]],
          categoryStorage =
            [[(''name'', JStr ''Work''), (''id'', JNum 10)], [(''name'', JStr ''Home''), (''id'', JNum 12)]]\<rparr>))))
   \<and> JNum 12
     \<in> set (ids (categoryStorage (snd (Model_remove (JNum 11)
         \<lparr>taskStorage =
            [[(''title'', JStr ''A''), (''categoryId'', JNum 10), (''completed'', JBool False), (''id'', JNum 11)],
             [(''title'', JStr ''B''), (''categoryId'', JNum 12), (''completed'', JBool False), (''id'', JNum 13)]],
          categoryStorage =
            [[(''name'', JStr ''Work''), (''id'', JNum 10)], [(''name'', JStr ''Home''), (''id'', JNum 12)]]\<rparr>))))
   \<and> JNum 12
     \<in> set (ids (categoryStorage (snd (Model_update 20 (JNum 11) [(''categoryName'', JStr ''Home'')]
         \<lparr>taskStorage =
            [[(''title'', JStr ''A''), (''categoryId'', JNum 10), (''completed'', JBool False), (''id'', JNum 11)],
             [(''title'', JStr ''B''), (''categoryId'', JNum 12), (''completed'', JBool False), (''id'', JNum 13)]],
          categoryStorage =
            [[(''name'', JStr ''Work''), (''id'', JNum 10)], [(''name'', JStr ''Home''), (''id'', JNum 12)]]\<rparr>))))"
proof -
  let ?a = "[(''title'', JStr ''A''), (''categoryId'', JNum 10), (''completed'', JBool False), (''id'', JNum 11)]"
  let ?b = "[(''title'', JStr ''B''), (''categoryId'', JNum 12), (''completed'', JBool False), (''id'', JNum 13)]"
  let ?work = "[(''name'', JStr ''Work''), (''id'', JNum 10)]"
  let ?home = "[(''name'', JStr ''Home''), (''id'', JNum 12)]"
  let ?s = "\<lparr>taskStorage = [?a, ?b], categoryStorage = [?work, ?home]\<rparr>"
  let ?data = "[(''categoryName'', JStr ''Home'')]"
  have num: "numeric_ids (categoryStorage ?s)" by code_simp
  have dist: "distinct (ids (categoryStorage ?s))" by code_simp
  have C: "?work \<in> set (categoryStorage ?s)" by simp
  have task: "Store_findById (JNum 11) (taskStorage ?s) = Some ?a" by code_simp
  have ref: "get ?a ''categoryId'' = get ?work ''id''" by code_simp
  have cn: "has ''categoryName'' ?data" by code_simp
  have other: "get ?data ''categoryName'' \<noteq> get ?work ''name''" by code_simp
  have fresh: "JNum 20 \<notin> set (ids (categoryStorage ?s))" by code_simp
  note inst = orphan_cleanup_unique_ids [OF num dist C task ref cn other fresh]
  have sole: "Store_find [(''categoryId'', get ?work ''id'')] (remove1 ?a (taskStorage ?s)) = []"
    by code_simp
  have D: "?home \<in> set (categoryStorage ?s)" by simp
  have t: "?b \<in> set (remove1 ?a (taskStorage ?s))" by simp
  have r: "get ?b ''categoryId'' = get ?home ''id''" by code_simp
  have h: "get ?home ''id'' = JNum 12" by code_simp
  note gone = inst [THEN conjunct1, THEN mp, OF sole]
  note kept = inst [THEN conjunct2, THEN bspec, THEN bspec, THEN mp, OF D t r]
  from gone kept show ?thesis unfolding h by (intro conjI) (erule conjunct1 conjunct2)+
qed


text \<open>
  C2. The claim: in every state where category \<open>C\<close> exists and exactly one task refers
  to it, \<open>C\<close> is gone from the category store after \<open>remove\<close> of that task, and after an
  \<open>update\<close> of that task with another category name. The code: categories are removed
  by id, and ids are clock readings, so categories created within one millisecond share
  an id. Two tasks are created in \<open>X\<close> and in \<open>Y\<close> at clock reading 5 and the first
  is removed: categories \<open>X\<close> and \<open>Y\<close>, both with id 5, and the one task of \<open>Y\<close> are left.
  Removing that task splices out the first category of id 5, which is \<open>X\<close>: \<open>Y\<close> stays,
  with no task. And a task created in \<open>X\<close> at reading 5 and updated to the name \<open>Y\<close> at
  the same reading gets a new category with the id of the old one, so
  \<open>newCategoryId !== prevCategoryId\<close> is false and \<open>X\<close> stays.
\<close>

theorem C2_same_instant_keeps_orphan:
  "snd (Model_remove (JNum 5)
      (snd (Model_create 5 5 (JStr ''B'') (JStr ''Y'')
        (snd (Model_create 5 5 (JStr ''A'') (JStr ''X'') empty_stores)))))
     = \<lparr>taskStorage =
          [[(''title'', JStr ''B''), (''categoryId'', JNum 5), (''completed'', JBool False), (''id'', JNum 5)]],
        categoryStorage =
          [[(''name'', JStr ''X''), (''id'', JNum 5)], [(''name'', JStr ''Y''), (''id'', JNum 5)]]\<rparr>
   \<and> Store_find [(''categoryId'', get [(''name'', JStr ''Y''), (''id'', JNum 5)] ''id'')]
       [[(''title'', JStr ''B''), (''categoryId'', JNum 5), (''completed'', JBool False), (''id'', JNum 5)]]
     = [[(''title'', JStr ''B''), (''categoryId'', JNum 5), (''completed'', JBool False), (''id'', JNum 5)]]
   \<and> snd (Model_remove (JNum 5)
       \<lparr>taskStorage =
          [[(''title'', JStr ''B''), (''categoryId'', JNum 5), (''completed'', JBool False), (''id'', JNum 5)]],
        categoryStorage =
          [[(''name'', JStr ''X''), (''id'', JNum 5)], [(''name'', JStr ''Y''), (''id'', JNum 5)]]\<rparr>)
     = \<lparr>taskStorage = [], categoryStorage = [[(''name'', JStr ''Y''), (''id'', JNum 5)]]\<rparr>
   \<and> snd (Model_create 5 5 (JStr ''A'') (JStr ''X'') empty_stores)
     = \<lparr>taskStorage =
          [[(''title'', JStr ''A''), (''categoryId'', JNum 5), (''completed'', JBool False), (''id'', JNum 5)]],
        categoryStorage = [[(''name'', JStr ''X''), (''id'', JNum 5)]]\<rparr>
   \<and> snd (Model_update 5 (JNum 5) [(''categoryName'', JStr ''Y'')]
       \<lparr>taskStorage =
          [[(''title'', JStr ''A''), (''categoryId'', JNum 5), (''completed'', JBool False), (''id'', JNum 5)]],
        categoryStorage = [[(''name'', JStr ''X''), (''id'', JNum 5)]]\<rparr>)
     = \<lparr>taskStorage =
          [[(''title'', JStr ''A''), (''categoryId'', JNum 5), (''completed'', JBool False), (''id'', JNum 5)]],
        categoryStorage =
          [[(''name'', JStr ''X''), (''id'', JNum 5)], [(''name'', JStr ''Y''), (''id'', JNum 5)]]\<rparr>"
  by code_simp


section \<open>Strict and loose equality of ids\<close>

text \<open>
  C9. \<open>find\<close> compares each field of the predicate with \<open>!==\<close>, \<open>findById\<close> and
  \<open>remove\<close> compare ids with \<open>==\<close>. In a store whose ids are numbers (as \<open>save\<close>
  assigns them) and that holds a record with id \<open>n\<close>: \<open>findById\<close> with the string form
  of \<open>n\<close> returns a record \<open>r'\<close> with id \<open>n\<close> (the record itself when ids are pairwise
  different, the first of that id in general), \<open>remove\<close> with the string form deletes
  \<open>r'\<close>, and \<open>find\<close> with the predicate \<open>{id: String(n)}\<close> returns the empty list, while
  \<open>{id: n}\<close> does find \<open>r'\<close>.
\<close>

theorem C9_id_equality_discipline:
  assumes num: "numeric_ids items" and r: "r \<in> set items" and n: "get r ''id'' = JNum n"
  shows "\<exists>r'. r' \<in> set items \<and> get r' ''id'' = JNum n \<and> (distinct (ids items) \<longrightarrow> r' = r)
       \<and> Store_findById (JStr (show_int n)) items = Some r'
       \<and> Store_remove (JStr (show_int n)) items = (remove1 r' items, map json (remove1 r' items))
       \<and> Store_find [(''id'', JStr (show_int n))] items = []
       \<and> r' \<in> set (Store_find [(''id'', JNum n)] items)"
proof -
  have loose: "loose_eq (get x ''id'') (JStr (show_int n)) \<longleftrightarrow> get x ''id'' = JNum n"
    if "x \<in> set items" for x
    using numeric_idsD [OF num that] by (rule loose_eq_num_string)
  have "\<exists>x\<in>set items. loose_eq (get x ''id'') (JStr (show_int n))"
    using r n loose by blast
  then obtain r' where f: "Store_findById (JStr (show_int n)) items = Some r'"
    unfolding Store_findById_def by (cases "List.find (\<lambda>item. loose_eq (get item ''id'') (JStr (show_int n))) items")
      (auto simp: find_None_iff)
  have mem: "r' \<in> set items" by (rule findById_mem [OF f])
  from findById_split [OF f] have "loose_eq (get r' ''id'') (JStr (show_int n))" by blast
  with loose [OF mem] have id': "get r' ''id'' = JNum n" by simp
  have same: "r' = r" if "distinct (ids items)"
    using distinct_ids_eq [OF that mem r] id' n by simp
  have rm: "Store_remove (JStr (show_int n)) items = (remove1 r' items, map json (remove1 r' items))"
    by (simp add: Store_remove_eq findById_remove1 [OF f])
  have strict: "\<forall>x\<in>set items. get x ''id'' \<noteq> JStr (show_int n)"
    using numeric_idsD [OF num] by (force simp: is_num_def)
  have fn: "r' \<in> set (Store_find [(''id'', JNum n)] items)"
    using mem id' by (simp add: Store_find_field)
  from mem id' same f rm find_strict_none [OF strict] fn show ?thesis by blast
qed

theorem C9_witness:
  "Store_findById (JStr ''12'')
     [[(''name'', JStr ''Home''), (''id'', JNum 7)], [(''name'', JStr ''Work''), (''id'', JNum 12)]]
     = Some [(''name'', JStr ''Work''), (''id'', JNum 12)]
   \<and> Store_remove (JStr ''12'')
     [[(''name'', JStr ''Home''), (''id'', JNum 7)], [(''name'', JStr ''Work''), (''id'', JNum 12)]]
     = ([[(''name'', JStr ''Home''), (''id'', JNum 7)]], [[(''name'', JStr ''Home''), (''id'', JNum 7)]])
   \<and> Store_find [(''id'', JStr ''12'')]
     [[(''name'', JStr ''Home''), (''id'', JNum 7)], [(''name'', JStr ''Work''), (''id'', JNum 12)]] = []
   \<and> Store_find [(''id'', JNum 12)]
     [[(''name'', JStr ''Home''), (''id'', JNum 7)], [(''name'', JStr ''Work''), (''id'', JNum 12)]]
     = [[(''name'', JStr ''Work''), (''id'', JNum 12)]]"
proof -
  let ?r = "[(''name'', JStr ''Work''), (''id'', JNum 12)]"
  let ?items = "[[(''name'', JStr ''Home''), (''id'', JNum 7)], ?r]"
  have num: "numeric_ids ?items" by code_simp
  have dist: "distinct (ids ?items)" by code_simp
  have r: "?r \<in> set ?items" by simp
  have n: "get ?r ''id'' = JNum 12" by code_simp
  have sh: "show_int 12 = ''12''" by code_simp
  have rm: "remove1 ?r ?items = [[(''name'', JStr ''Home''), (''id'', JNum 7)]]" by simp
  have js: "map json [[(''name'', JStr ''Home''), (''id'', JNum 7)]]
      = [[(''name'', JStr ''Home''), (''id'', JNum 7)]]" by code_simp
  have fn: "Store_find [(''id'', JNum 12)] ?items = [?r]" by code_simp
  from C9_id_equality_discipline [OF num r n] show ?thesis
  proof (elim exE conjE)
    fix r'
    assume same: "distinct (ids ?items) \<longrightarrow> r' = ?r"
      and f: "Store_findById (JStr (show_int 12)) ?items = Some r'"
      and d: "Store_remove (JStr (show_int 12)) ?items = (remove1 r' ?items, map json (remove1 r' ?items))"
      and e: "Store_find [(''id'', JStr (show_int 12))] ?items = []"
    from same dist have r': "r' = ?r" by (rule mp)
    show ?thesis
      using f d e unfolding r' sh rm js fn by (intro conjI) simp_all
  qed
qed

section \<open>What every sequence of \<open>create\<close> and \<open>update\<close> calls keeps\<close>

text \<open>
  Names are resolved by exact match, so the names as stored stay pairwise different, and
  \<open>update\<close> takes \<open>categoryName\<close> out of \<open>data\<close> before saving, so no task gets
  such a field.
\<close>

lemma names_json [simp]: "names (map json xs) = names xs"
  by (simp add: names_def)

lemma names_append [simp]: "names (xs @ ys) = names xs @ names ys"
  by (simp add: names_def)

lemma names_single [simp]: "names [x] = [get x ''name'']"
  by (simp add: names_def)

lemma remove_loop_subset: "set (remove_loop v xs) \<subseteq> set xs"
  by (induction xs) auto

lemma names_remove_loop: "distinct (names xs) \<Longrightarrow> distinct (names (remove_loop v xs))"
proof (induction xs)
  case Nil
  then show ?case by simp
next
  case (Cons x xs)
  then have "get x ''name'' \<notin> set (names (remove_loop v xs))"
    using remove_loop_subset [of v xs] by (auto simp: names_def)
  with Cons show ?case by (simp add: names_def)
qed

lemma names_Store_remove: "distinct (names xs) \<Longrightarrow> distinct (names (snd (Store_remove v xs)))"
  by (simp add: Store_remove_eq names_remove_loop)

lemma getCategoryIdByName_names:
  assumes "distinct (names (categoryStorage s))"
  shows "distinct (names (categoryStorage (snd (getCategoryIdByName now n s))))"
proof (rule getCategoryIdByName_cases [of n s now])
  fix d ds assume "getCategoryIdByName now n s = (Inr (get d ''id''), s)"
  with assms show ?thesis by simp
next
  assume f: "Store_find [(''name'', n)] (categoryStorage s) = []"
    and g: "getCategoryIdByName now n s
       = (Inr (JNum now),
          s\<lparr>categoryStorage := map json (categoryStorage s @ [[(''name'', n), (''id'', JNum now)]])\<rparr>)"
  from f have "n \<notin> set (names (categoryStorage s))"
    by (auto simp: Store_find_field filter_empty_conv names_def)
  moreover have "get [(''name'', n), (''id'', JNum now)] ''name'' = n" by (simp add: get_def)
  ultimately show ?thesis using assms g by simp
qed

lemma save_loop_no_field:
  "\<not> has k u \<Longrightarrow> list_all (\<lambda>t. \<not> has k t) xs \<Longrightarrow> list_all (\<lambda>t. \<not> has k t) (save_loop v u xs)"
  by (induction xs) simp_all

lemma Store_save_no_field:
  assumes "\<not> has k u" "k \<noteq> ''id''" "list_all (\<lambda>t. \<not> has k t) xs"
  shows "list_all (\<lambda>t. \<not> has k t) (snd (Store_save now u v xs))"
proof (cases "truthy v")
  case True
  with save_loop_no_field [OF assms(1,3), of v] show ?thesis
    by (simp add: Store_save_id list_all_iff has_json)
next
  case False
  with assms show ?thesis by (simp add: Store_save_new list_all_iff has_json)
qed

lemma Model_create_stored:
  assumes "stored_as_written s"
  shows "stored_as_written (snd (Model_create now1 now2 title categoryName s))"
proof (cases "\<exists>t n. trim_arg title = Inr t \<and> trim_arg categoryName = Inr n")
  case False
  then have "snd (Model_create now1 now2 title categoryName s) = s"
    by (auto simp: Model_create_def split: sum.splits)
  with assms show ?thesis by simp
next
  case True
  then obtain t n where tn: "trim_arg title = Inr t" "trim_arg categoryName = Inr n" by blast
  obtain newId s1 where gc: "getCategoryIdByName now1 (JStr n) s = (Inr newId, s1)"
    and ts: "taskStorage s1 = taskStorage s"
    using getCategoryIdByName_total by blast
  let ?newTask = "[(''title'', JStr t), (''categoryId'', newId), (''completed'', JBool False)]"
  have eq: "snd (Model_create now1 now2 title categoryName s)
       = s1\<lparr>taskStorage := snd (Store_save now2 ?newTask JUndefined (taskStorage s))\<rparr>"
    by (simp add: Model_create_def tn gc ts Let_def split: prod.splits)
  have "distinct (names (categoryStorage s1))"
    using getCategoryIdByName_names [of s now1 "JStr n"] assms gc by (simp add: stored_as_written_def)
  moreover have "list_all (\<lambda>t. \<not> has ''categoryName'' t) (snd (Store_save now2 ?newTask JUndefined (taskStorage s)))"
    using assms by (intro Store_save_no_field) (simp_all add: stored_as_written_def has_def)
  ultimately show ?thesis by (simp add: eq stored_as_written_def)
qed

lemma Model_update_stored:
  assumes "stored_as_written s"
  shows "stored_as_written (snd (Model_update now idv data s))"
proof (cases "has ''categoryName'' data")
  case False
  then have "snd (Model_update now idv data s) = s\<lparr>taskStorage := snd (Store_save now data idv (taskStorage s))\<rparr>"
    by (simp add: Model_update_def split: prod.splits)
  moreover have "list_all (\<lambda>t. \<not> has ''categoryName'' t) (snd (Store_save now data idv (taskStorage s)))"
    using assms False by (intro Store_save_no_field) (simp_all add: stored_as_written_def)
  ultimately show ?thesis using assms by (simp add: stored_as_written_def)
next
  case True
  obtain newId s1 where gc: "getCategoryIdByName now (get data ''categoryName'') s = (Inr newId, s1)"
    and ts: "taskStorage s1 = taskStorage s"
    using getCategoryIdByName_total by blast
  have n1: "distinct (names (categoryStorage s1))"
    using getCategoryIdByName_names [of s now "get data ''categoryName''"] assms gc
    by (simp add: stored_as_written_def)
  show ?thesis
  proof (cases "Store_findById idv (taskStorage s)")
    case None
    then have "snd (Model_update now idv data s) = s1"
      by (simp add: Model_update_def True gc ts Let_def)
    with n1 ts assms show ?thesis by (simp add: stored_as_written_def)
  next
    case (Some task)
    note upd = Model_update_categoryName [OF True gc ts Some]
    have "distinct (names (categoryStorage (snd (Model_update now idv data s))))"
      using n1 by (simp add: upd(3) names_Store_remove)
    moreover have "list_all (\<lambda>t. \<not> has ''categoryName'' t) (taskStorage (snd (Model_update now idv data s)))"
      unfolding upd(1) using assms
      by (intro Store_save_no_field) (simp_all add: stored_as_written_def)
    ultimately show ?thesis by (simp add: stored_as_written_def)
  qed
qed

lemma step_stored: "stored_as_written s \<Longrightarrow> stored_as_written (step c s)"
  by (cases c) (simp_all add: Model_create_stored Model_update_stored)

lemma run_stored: "stored_as_written s \<Longrightarrow> stored_as_written (run calls s)"
  unfolding run_def by (induction calls arbitrary: s) (simp_all add: step_stored)

lemma run_from_empty_stored: "stored_as_written (run calls empty_stores)"
  by (rule run_stored) (simp add: stored_as_written_def empty_stores_def names_def)


end
